theory Spec2Isabelle
  imports Complex_Main "HOL-Library.Char_ord" "HOL-Library.List_Lexorder"
begin

section \<open>JavaScript values used by the task and time-log services\<close>

text \<open>
  A property that may be absent from an object is an \<open>option\<close>: \<open>None\<close> is
  \<^verbatim>\<open>undefined\<close>. The tests \<^verbatim>\<open>!x\<close> and \<^verbatim>\<open>x || d\<close> of the source go through
  JavaScript truthiness: an absent value, the empty string and the number 0 are falsy.
  Hours are rationals (rounding of binary floating point and the value NaN of a
  stored field are outside the model). Dates and timestamps are the ISO strings the
  source produces with \<^verbatim>\<open>toISOString()\<close>; \<^verbatim>\<open><=\<close> on them is the lexicographic order
  of strings.
\<close>

fun truthy_str :: "string option \<Rightarrow> bool" where
  "truthy_str None = False"
| "truthy_str (Some s) = (s \<noteq> [])"

fun truthy_key :: "nat option \<Rightarrow> bool" where
  "truthy_key None = False"
| "truthy_key (Some k) = (k \<noteq> 0)"

text \<open>\<^verbatim>\<open>x || d\<close> on a string and on a number.\<close>

fun str_or :: "string option \<Rightarrow> string \<Rightarrow> string" where
  "str_or None d = d"
| "str_or (Some s) d = (if s = [] then d else s)"

fun num_or :: "rat option \<Rightarrow> rat \<Rightarrow> rat" where
  "num_or None d = d"
| "num_or (Some x) d = (if x = 0 then d else x)"

text \<open>A value inside a template literal: \<^verbatim>\<open>`${x}`\<close>.\<close>

fun str_of :: "string option \<Rightarrow> string" where
  "str_of None = ''undefined''"
| "str_of (Some s) = s"

section \<open>Status transitions (task-service.mjs)\<close>

text \<open>
  The object \<^verbatim>\<open>stateTransitions\<close> is a dictionary from a status to the array of its
  allowed next statuses; it is kept as the association list the source writes. A key
  that is not listed reads as \<^verbatim>\<open>undefined\<close> (the properties an object inherits from
  \<^verbatim>\<open>Object.prototype\<close> are not statuses and are not modelled).
\<close>

definition stateTransitions :: "(string \<times> string list) list" where
  "stateTransitions =
    [(''Ready'', [''Estimated'', ''InProgress'', ''Abandoned'', ''Archived'']),
     (''Estimated'', [''InProgress'', ''Abandoned'', ''Archived'']),
     (''InProgress'', [''Blocked'', ''Backburner'', ''OnHold'', ''Completed'', ''Abandoned'', ''Archived'']),
     (''Blocked'', [''InProgress'', ''Backburner'', ''OnHold'', ''Abandoned'', ''Archived'']),
     (''Backburner'', [''InProgress'', ''Blocked'', ''OnHold'', ''Abandoned'', ''Archived'']),
     (''OnHold'', [''InProgress'', ''Abandoned'', ''Archived'']),
     (''Completed'', [''Abandoned'', ''Archived'']),
     (''Abandoned'', [''Archived'']),
     (''Archived'', [])]"

fun isValidStatusTransition :: "string option \<Rightarrow> string option \<Rightarrow> bool" where
  "isValidStatusTransition (Some fromStatus) (Some toStatus) =
     (if fromStatus = [] \<or> toStatus = [] then False
      else if fromStatus = toStatus then True
      else (case map_of stateTransitions fromStatus of
              Some allowed \<Rightarrow> toStatus \<in> set allowed
            | None \<Rightarrow> False))"
| "isValidStatusTransition _ _ = False"

text \<open>The nine statuses, and the transition table as section 4.1 of the specification lists it.\<close>

definition statuses :: "string list" where
  "statuses = [''Ready'', ''Estimated'', ''InProgress'', ''Blocked'', ''Backburner'',
               ''OnHold'', ''Completed'', ''Abandoned'', ''Archived'']"

definition specTransitionTable :: "(string \<times> string) list" where
  "specTransitionTable =
    [(''Ready'', ''Estimated''), (''Ready'', ''InProgress''), (''Ready'', ''Abandoned''), (''Ready'', ''Archived''),
     (''Estimated'', ''InProgress''), (''Estimated'', ''Abandoned''), (''Estimated'', ''Archived''),
     (''InProgress'', ''Blocked''), (''InProgress'', ''Backburner''), (''InProgress'', ''OnHold''),
     (''InProgress'', ''Completed''), (''InProgress'', ''Abandoned''), (''InProgress'', ''Archived''),
     (''Blocked'', ''InProgress''), (''Blocked'', ''Backburner''), (''Blocked'', ''OnHold''),
     (''Blocked'', ''Abandoned''), (''Blocked'', ''Archived''),
     (''Backburner'', ''InProgress''), (''Backburner'', ''Blocked''), (''Backburner'', ''OnHold''),
     (''Backburner'', ''Abandoned''), (''Backburner'', ''Archived''),
     (''OnHold'', ''InProgress''), (''OnHold'', ''Abandoned''), (''OnHold'', ''Archived''),
     (''Completed'', ''Abandoned''), (''Completed'', ''Archived''),
     (''Abandoned'', ''Archived'')]"


section \<open>Data model\<close>

text \<open>
  The records hold the properties the services read or write. A \<^verbatim>\<open>StatusEvent\<close> is an
  element of \<^verbatim>\<open>task.statusHistory\<close>; a \<^verbatim>\<open>RemainingHoursEntry\<close> is a row of the store
  \<^verbatim>\<open>remainingHoursHistory\<close>. The property \<^verbatim>\<open>_initialRemainingHoursEntry\<close> that
  \<^verbatim>\<open>saveTask\<close> hangs on a new task is the field \<open>initialRemainingHoursEntry\<close>.
\<close>

record status_event =
  se_status :: "string option"
  se_timestamp :: string
  se_note :: string

record rh_entry =
  rh_id :: "nat option"
  rh_taskId :: "nat option"
  rh_remainingHours :: rat
  rh_previousRemainingHours :: "rat option"
  rh_timestamp :: string
  rh_note :: string

record task =
  task_id :: "nat option"
  title :: string
  status :: "string option"
  estimate :: "rat option"
  remainingHours :: "rat option"
  statusHistory :: "status_event list option"
  createdAt :: "string option"
  initialRemainingHoursEntry :: "rh_entry option"

record time_log =
  log_id :: "nat option"
  log_taskId :: "nat option"
  hours :: "rat option"
  dateLogged :: "string option"
  category :: "string option"
  categoryKey :: "string option"
  log_notes :: string

section \<open>The persistent store (db.mjs)\<close>

text \<open>
  Every object store is created with \<^verbatim>\<open>{ keyPath: 'id', autoIncrement: true }\<close>: a row is
  found under the number in its \<^verbatim>\<open>id\<close> property, and a value saved without an
  \<^verbatim>\<open>id\<close> gets the next number of the store's key generator, which starts at 1 and is
  pushed beyond every explicit key that is written. The rows are kept in key order, the
  order in which \<^verbatim>\<open>getAll\<close> returns them.
\<close>

record 'a object_store =
  rows :: "(nat \<times> 'a) list"
  nextKey :: nat

definition emptyStore :: "'a object_store" where
  "emptyStore = \<lparr>rows = [], nextKey = 1\<rparr>"

fun upsert :: "nat \<Rightarrow> 'a \<Rightarrow> (nat \<times> 'a) list \<Rightarrow> (nat \<times> 'a) list" where
  "upsert k v [] = [(k, v)]"
| "upsert k v ((k', v') # rs) =
     (if k < k' then (k, v) # (k', v') # rs
      else if k = k' then (k, v) # rs
      else (k', v') # upsert k v rs)"

definition store_get :: "'a object_store \<Rightarrow> nat \<Rightarrow> 'a option" where
  "store_get s k = map_of (rows s) k"

text \<open>
  \<^verbatim>\<open>put(value)\<close>: \<open>key\<close> is the value's \<^verbatim>\<open>id\<close>, \<open>setId\<close> writes the generated key
  into a value that has none. The result is the key and the new store.
\<close>

definition store_put ::
  "(nat \<Rightarrow> 'a \<Rightarrow> 'a) \<Rightarrow> nat option \<Rightarrow> 'a \<Rightarrow> 'a object_store \<Rightarrow> nat \<times> 'a object_store" where
  "store_put setId key v s =
     (case key of
        None \<Rightarrow> (nextKey s, \<lparr>rows = upsert (nextKey s) (setId (nextKey s) v) (rows s),
                              nextKey = nextKey s + 1\<rparr>)
      | Some k \<Rightarrow> (k, \<lparr>rows = upsert k v (rows s), nextKey = max (nextKey s) (k + 1)\<rparr>))"

text \<open>\<^verbatim>\<open>add(value)\<close> is \<^verbatim>\<open>put\<close> that fails (\<open>None\<close>: a ConstraintError) when the key is taken.\<close>

definition store_add ::
  "(nat \<Rightarrow> 'a \<Rightarrow> 'a) \<Rightarrow> nat option \<Rightarrow> 'a \<Rightarrow> 'a object_store \<Rightarrow> (nat \<times> 'a object_store) option" where
  "store_add setId key v s =
     (let k = (case key of None \<Rightarrow> nextKey s | Some k' \<Rightarrow> k')
      in if store_get s k \<noteq> None then None else Some (store_put setId key v s))"

definition store_delete :: "nat \<Rightarrow> 'a object_store \<Rightarrow> 'a object_store" where
  "store_delete k s = s\<lparr>rows := filter (\<lambda>r. fst r \<noteq> k) (rows s)\<rparr>"

definition store_getAll :: "'a object_store \<Rightarrow> 'a list" where
  "store_getAll s = map snd (rows s)"

text \<open>\<^verbatim>\<open>index('taskId').getAll(taskId)\<close>: the rows whose \<^verbatim>\<open>taskId\<close> is the given one.\<close>

definition store_getAllFromIndex :: "('a \<Rightarrow> nat option) \<Rightarrow> nat \<Rightarrow> 'a object_store \<Rightarrow> 'a list" where
  "store_getAllFromIndex ix k s = filter (\<lambda>v. ix v = Some k) (map snd (rows s))"

record db =
  tasks :: "task object_store"
  timeLogs :: "time_log object_store"
  remainingHoursHistory :: "rh_entry object_store"

definition emptyDb :: db where
  "emptyDb = \<lparr>tasks = emptyStore, timeLogs = emptyStore, remainingHoursHistory = emptyStore\<rparr>"

definition set_task_id :: "nat \<Rightarrow> task \<Rightarrow> task" where
  "set_task_id k t = t\<lparr>task_id := Some k\<rparr>"

definition set_log_id :: "nat \<Rightarrow> time_log \<Rightarrow> time_log" where
  "set_log_id k l = l\<lparr>log_id := Some k\<rparr>"

definition set_rh_id :: "nat \<Rightarrow> rh_entry \<Rightarrow> rh_entry" where
  "set_rh_id k e = e\<lparr>rh_id := Some k\<rparr>"

text \<open>
  The states the store can be in: the rows are in ascending order of their keys, the keys
  are below the key generator, and every row carries its key as its \<^verbatim>\<open>id\<close>.
\<close>

definition store_ok :: "('a \<Rightarrow> nat option) \<Rightarrow> 'a object_store \<Rightarrow> bool" where
  "store_ok idOf s \<longleftrightarrow>
     sorted_wrt (<) (map fst (rows s))
     \<and> list_all (\<lambda>r. fst r < nextKey s \<and> idOf (snd r) = Some (fst r)) (rows s)"

definition db_ok :: "db \<Rightarrow> bool" where
  "db_ok d \<longleftrightarrow> store_ok task_id (tasks d) \<and> store_ok log_id (timeLogs d)
     \<and> store_ok rh_id (remainingHoursHistory d)"

section \<open>Task service (task-service.mjs)\<close>

text \<open>
  Every operation takes the database and returns its boolean result with the database
  after it; the writes of one transaction are applied together. A call that throws is
  caught by the operation's \<^verbatim>\<open>catch\<close> and returns \<^verbatim>\<open>false\<close> with the database as it
  was: a failed \<^verbatim>\<open>add\<close> aborts its transaction, and the other exceptions of the model
  arise before the first write or not at all in a well-formed store. \<open>now\<close> is what
  \<^verbatim>\<open>new Date().toISOString()\<close> reads during the call.
\<close>

text \<open>Lines 68 to 95: a new task gets its first status event, \<^verbatim>\<open>createdAt\<close> and its remaining hours.\<close>

definition initNewTask :: "string \<Rightarrow> task \<Rightarrow> task" where
  "initNewTask now task =
     (let t1 = task\<lparr>statusHistory := Some [\<lparr>se_status = Some (str_or (status task) ''Ready''),
                                              se_timestamp = now, se_note = ''Task created''\<rparr>],
                    createdAt := Some now\<rparr>;
          t2 = (if remainingHours t1 = None
                then t1\<lparr>remainingHours := Some (num_or (estimate t1) 0)\<rparr> else t1)
      in case remainingHours t2 of
           None \<Rightarrow> t2
         | Some r \<Rightarrow>
             if r > 0
             then t2\<lparr>initialRemainingHoursEntry :=
                       Some \<lparr>rh_id = None, rh_taskId = None, rh_remainingHours = r,
                             rh_previousRemainingHours = None, rh_timestamp = now,
                             rh_note = ''Initial estimate''\<rparr>\<rparr>
             else t2)"

text \<open>
  Lines 98 to 144: an edit that carries a status and an id reads the stored task, gives a
  stored task without history its first event, checks the transition and extends or keeps
  the history. \<open>None\<close> is the \<^verbatim>\<open>return false\<close> of an invalid transition.
\<close>

definition applyStatusEdit :: "string \<Rightarrow> db \<Rightarrow> task \<Rightarrow> task option" where
  "applyStatusEdit now d task =
     (if truthy_str (status task) \<and> truthy_key (task_id task) then
        (case task_id task of
           None \<Rightarrow> Some task
         | Some k \<Rightarrow>
            (case store_get (tasks d) k of
               None \<Rightarrow> Some task
             | Some currentTask \<Rightarrow>
                 let history = (case statusHistory currentTask of
                                  Some h \<Rightarrow> h
                                | None \<Rightarrow> [\<lparr>se_status = status currentTask,
                                             se_timestamp = str_or (createdAt currentTask) now,
                                             se_note = ''Legacy task - initial status''\<rparr>])
                 in if status currentTask \<noteq> status task then
                      (if \<not> isValidStatusTransition (status currentTask) (status task) then None
                       else Some (task\<lparr>statusHistory :=
                                          Some (history @
                                            [\<lparr>se_status = status task, se_timestamp = now,
                                              se_note = str_of (status currentTask) @ '' => '' @ str_of (status task)\<rparr>]),
                                        createdAt := Some (str_or (createdAt currentTask) now)\<rparr>))
                    else Some (task\<lparr>statusHistory := Some history,
                                     createdAt := Some (str_or (createdAt currentTask) now)\<rparr>)))
      else Some task)"

text \<open>
  Lines 146 to 160: the task is put, and for a new task the initial entry is added under
  the saved task's id, in one transaction over both stores.
\<close>

definition writeTask :: "db \<Rightarrow> task \<Rightarrow> bool \<Rightarrow> bool \<times> db" where
  "writeTask d task isEdit =
     (let (savedTaskId, tasks') = store_put set_task_id (task_id task) task (tasks d)
      in case (if isEdit then None else initialRemainingHoursEntry task) of
           None \<Rightarrow> (True, d\<lparr>tasks := tasks'\<rparr>)
         | Some entry \<Rightarrow>
             (case store_add set_rh_id (rh_id entry) (entry\<lparr>rh_taskId := Some savedTaskId\<rparr>)
                     (remainingHoursHistory d) of
                None \<Rightarrow> (False, d)
              | Some (_, history') \<Rightarrow> (True, d\<lparr>tasks := tasks', remainingHoursHistory := history'\<rparr>)))"

definition saveTask :: "string \<Rightarrow> db \<Rightarrow> task \<Rightarrow> bool \<Rightarrow> bool \<times> db" where
  "saveTask now d task isEdit =
     (let task1 = (if \<not> isEdit then initNewTask now task else task)
      in if isEdit then
           (case applyStatusEdit now d task1 of
              None \<Rightarrow> (False, d)
            | Some task2 \<Rightarrow> writeTask d task2 isEdit)
         else writeTask d task1 isEdit)"

text \<open>
  \<^verbatim>\<open>deleteTask\<close>: the task, then each time log and each remaining-hours entry that the
  index lists under the task's id, deleted by its own \<^verbatim>\<open>id\<close>. The loops are the
  recursion \<open>deleteEach\<close>. A row read from a store with \<^verbatim>\<open>keyPath: 'id'\<close> always has
  its id; the branch for a row without one, where \<^verbatim>\<open>delete\<close> would throw, is there for
  totality and is never taken in a well-formed store.
\<close>

fun deleteEach :: "('a \<Rightarrow> nat option) \<Rightarrow> 'a list \<Rightarrow> 'a object_store \<Rightarrow> 'a object_store option" where
  "deleteEach idOf [] s = Some s"
| "deleteEach idOf (x # xs) s =
     (case idOf x of None \<Rightarrow> None | Some k \<Rightarrow> deleteEach idOf xs (store_delete k s))"

definition deleteTask :: "db \<Rightarrow> nat \<Rightarrow> bool \<times> db" where
  "deleteTask d taskId =
     (let tasks' = store_delete taskId (tasks d);
          logs = store_getAllFromIndex log_taskId taskId (timeLogs d);
          historyEntries = store_getAllFromIndex rh_taskId taskId (remainingHoursHistory d)
      in case deleteEach log_id logs (timeLogs d) of
           None \<Rightarrow> (False, d)
         | Some timeLogs' \<Rightarrow>
             (case deleteEach rh_id historyEntries (remainingHoursHistory d) of
                None \<Rightarrow> (False, d)
              | Some history' \<Rightarrow>
                  (True, \<lparr>tasks = tasks', timeLogs = timeLogs', remainingHoursHistory = history'\<rparr>)))"

text \<open>
  \<^verbatim>\<open>updateRemainingHours\<close>; \<open>numToString\<close> is the conversion of a number inside the
  generated note.
\<close>

definition updateRemainingHours ::
  "(rat \<Rightarrow> string) \<Rightarrow> string \<Rightarrow> db \<Rightarrow> nat \<Rightarrow> rat \<Rightarrow> string \<Rightarrow> bool \<times> db" where
  "updateRemainingHours numToString now d taskId newRemainingHours note =
     (case store_get (tasks d) taskId of
        None \<Rightarrow> (False, d)
      | Some task \<Rightarrow>
          let oldRemainingHours = num_or (remainingHours task) 0
          in if oldRemainingHours \<noteq> newRemainingHours then
               (let task' = task\<lparr>remainingHours := Some newRemainingHours\<rparr>;
                    historyEntry =
                      \<lparr>rh_id = None, rh_taskId = Some taskId, rh_remainingHours = newRemainingHours,
                        rh_previousRemainingHours = Some oldRemainingHours, rh_timestamp = now,
                        rh_note = (if note = [] then
                                     ''Updated remaining hours from '' @ numToString oldRemainingHours
                                       @ ''h to '' @ numToString newRemainingHours @ ''h''
                                   else note)\<rparr>;
                    (_, tasks') = store_put set_task_id (task_id task') task' (tasks d)
                in case store_add set_rh_id (rh_id historyEntry) historyEntry (remainingHoursHistory d) of
                     None \<Rightarrow> (False, d)
                   | Some (_, history') \<Rightarrow>
                       (True, d\<lparr>tasks := tasks', remainingHoursHistory := history'\<rparr>))
             else (False, d))"

definition getRemainingHoursHistory :: "db \<Rightarrow> nat \<Rightarrow> rh_entry list" where
  "getRemainingHoursHistory d taskId = store_getAllFromIndex rh_taskId taskId (remainingHoursHistory d)"

definition getTaskById :: "db \<Rightarrow> nat \<Rightarrow> task option" where
  "getTaskById d taskId = store_get (tasks d) taskId"


section \<open>Time-log service (timelog-service.mjs)\<close>

definition loggableStatuses :: "string list" where
  "loggableStatuses = [''Estimated'', ''InProgress'']"

text \<open>\<^verbatim>\<open>['Estimated', 'InProgress'].includes(task.status)\<close>\<close>

fun includesStatus :: "string list \<Rightarrow> string option \<Rightarrow> bool" where
  "includesStatus xs None = False"
| "includesStatus xs (Some s) = (s \<in> set xs)"

fun canLogTimeForTask :: "task option \<Rightarrow> bool" where
  "canLogTimeForTask None = False"
| "canLogTimeForTask (Some task) = includesStatus loggableStatuses (status task)"

text \<open>\<^verbatim>\<open>new Date().toISOString().split('T')[0]\<close>: the date part of the timestamp.\<close>

definition dateOf :: "string \<Rightarrow> string" where
  "dateOf now = takeWhile (\<lambda>c. c \<noteq> CHR ''T'') now"

text \<open>
  \<^verbatim>\<open>saveTimeLog\<close>. Reading the task store with a missing \<^verbatim>\<open>taskId\<close> throws, which
  the \<^verbatim>\<open>catch\<close> turns into \<^verbatim>\<open>false\<close>.
\<close>

definition saveTimeLog :: "string \<Rightarrow> db \<Rightarrow> time_log \<Rightarrow> bool \<times> db" where
  "saveTimeLog now d timeLog =
     (case log_taskId timeLog of
        None \<Rightarrow> (False, d)
      | Some taskId \<Rightarrow>
          (case store_get (tasks d) taskId of
             None \<Rightarrow> (False, d)
           | Some task \<Rightarrow>
               if \<not> includesStatus loggableStatuses (status task) then (False, d)
               else
                 (let timeLog' = (if \<not> truthy_str (dateLogged timeLog)
                                  then timeLog\<lparr>dateLogged := Some (dateOf now)\<rparr> else timeLog);
                      (_, timeLogs') = store_put set_log_id (log_id timeLog') timeLog' (timeLogs d)
                  in (True, d\<lparr>timeLogs := timeLogs'\<rparr>))))"

definition deleteTimeLog :: "db \<Rightarrow> nat \<Rightarrow> bool \<times> db" where
  "deleteTimeLog d logId = (True, d\<lparr>timeLogs := store_delete logId (timeLogs d)\<rparr>)"

text \<open>
  The comparisons \<^verbatim>\<open>log.dateLogged >= startDate\<close> and \<^verbatim>\<open><=\<close>: two strings compare
  lexicographically, and a comparison with \<^verbatim>\<open>undefined\<close> is false.
\<close>

fun date_ge :: "string option \<Rightarrow> string option \<Rightarrow> bool" where
  "date_ge (Some a) (Some b) = (b \<le> a)"
| "date_ge _ _ = False"

fun date_le :: "string option \<Rightarrow> string option \<Rightarrow> bool" where
  "date_le (Some a) (Some b) = (a \<le> b)"
| "date_le _ _ = False"

definition getTimeLogs :: "db \<Rightarrow> nat option \<Rightarrow> string option \<Rightarrow> string option \<Rightarrow> time_log list" where
  "getTimeLogs d taskId startDate endDate =
     (let logs = (case taskId of
                    None \<Rightarrow> store_getAll (timeLogs d)
                  | Some k \<Rightarrow> if k \<noteq> 0 then store_getAllFromIndex log_taskId k (timeLogs d)
                              else store_getAll (timeLogs d))
      in filter (\<lambda>log. if \<not> truthy_str startDate \<or> \<not> truthy_str endDate then True
                        else date_ge (dateLogged log) startDate \<and> date_le (dateLogged log) endDate)
           logs)"

definition getAllTimeLogs :: "db \<Rightarrow> string option \<Rightarrow> string option \<Rightarrow> time_log list" where
  "getAllTimeLogs d startDate endDate = getTimeLogs d None startDate endDate"

definition getTimeLogById :: "db \<Rightarrow> nat \<Rightarrow> time_log option" where
  "getTimeLogById d logId = store_get (timeLogs d) logId"

text \<open>
  \<^verbatim>\<open>validateTimeLog\<close> returns \<^verbatim>\<open>{ valid, errors }\<close>, here the pair of the two.
\<close>

definition validateTimeLog :: "time_log \<Rightarrow> bool \<times> string list" where
  "validateTimeLog timeLog =
     (let errors1 = (if \<not> truthy_key (log_taskId timeLog) then [''Task ID is required''] else []);
          errors2 = (case hours timeLog of
                       None \<Rightarrow> errors1 @ [''Hours must be greater than 0'']
                     | Some h \<Rightarrow> if h = 0 \<or> h \<le> 0
                                 then errors1 @ [''Hours must be greater than 0''] else errors1);
          errors3 = (if \<not> truthy_str (dateLogged timeLog)
                     then errors2 @ [''Date logged is required''] else errors2)
      in (length errors3 = 0, errors3))"

section \<open>Category analysis (category-service.mjs, timelog-service.mjs)\<close>

text \<open>
  \<^verbatim>\<open>categoryKey.split('.')\<close> and \<^verbatim>\<open>itemParts.join('.')\<close>, for any separator.
\<close>

fun split_at :: "char \<Rightarrow> string \<Rightarrow> string list" where
  "split_at c [] = [[]]"
| "split_at c (x # xs) =
     (if x = c then [] # split_at c xs
      else (case split_at c xs of
              [] \<Rightarrow> [[x]]
            | p # ps \<Rightarrow> (x # p) # ps))"

fun join_with :: "char \<Rightarrow> string list \<Rightarrow> string" where
  "join_with c [] = []"
| "join_with c [p] = p"
| "join_with c (p # q # ps) = p @ c # join_with c (q # ps)"

text \<open>\<^verbatim>\<open>parseCategoryKey\<close> returns \<^verbatim>\<open>{ listSlug, itemSlug }\<close>; \<open>None\<close> is \<^verbatim>\<open>null\<close>.\<close>

fun parseCategoryKey :: "string option \<Rightarrow> string option \<times> string option" where
  "parseCategoryKey None = (None, None)"
| "parseCategoryKey (Some key) =
     (if key = [] \<or> CHR ''.'' \<notin> set key then (None, None)
      else (case split_at CHR ''.'' key of
              [] \<Rightarrow> (None, Some [])
            | listSlug # itemParts \<Rightarrow> (Some listSlug, Some (join_with CHR ''.'' itemParts))))"

text \<open>
  The category directory: \<^verbatim>\<open>getCategoryListBySlug\<close> reads the store \<^verbatim>\<open>categoryLists\<close>,
  which the time-log service never writes; it is the parameter \<open>dir\<close>.
\<close>

record category_list =
  cl_title :: string
  cl_categories :: "(string \<times> string) list"

record display_info =
  listTitle :: string
  itemTitle :: string
  fullDisplay :: string

definition getCategoryDisplayInfo :: "(string \<Rightarrow> category_list option) \<Rightarrow> string option \<Rightarrow> display_info" where
  "getCategoryDisplayInfo dir key =
     (if \<not> truthy_str key
      then \<lparr>listTitle = [], itemTitle = [], fullDisplay = ''Uncategorized''\<rparr>
      else
        (case parseCategoryKey key of (listSlug, itemSlug) \<Rightarrow>
           if \<not> truthy_str listSlug \<or> \<not> truthy_str itemSlug
           then \<lparr>listTitle = [], itemTitle = str_of key, fullDisplay = str_of key\<rparr>
           else
             (case dir (str_of listSlug) of
                None \<Rightarrow> \<lparr>listTitle = str_of listSlug, itemTitle = str_of itemSlug,
                          fullDisplay = str_of listSlug @ ''.'' @ str_of itemSlug\<rparr>
              | Some categoryList \<Rightarrow>
                  let itemTitle' = (case map_of (cl_categories categoryList) (str_of itemSlug) of
                                      Some t \<Rightarrow> t | None \<Rightarrow> str_of itemSlug)
                  in \<lparr>listTitle = cl_title categoryList, itemTitle = itemTitle',
                       fullDisplay = cl_title categoryList @ '': '' @ itemTitle'\<rparr>)))"

text \<open>
  A sum of hours is a JavaScript number: adding an absent \<^verbatim>\<open>hours\<close> gives \<^verbatim>\<open>NaN\<close>, which
  every later addition keeps.
\<close>

datatype jsnum = NaN | Num rat

fun js_add :: "jsnum \<Rightarrow> jsnum \<Rightarrow> jsnum" where
  "js_add (Num a) (Num b) = Num (a + b)"
| "js_add _ _ = NaN"

fun toNumber :: "rat option \<Rightarrow> jsnum" where
  "toNumber None = NaN"
| "toNumber (Some h) = Num h"

text \<open>\<^verbatim>\<open>a || b\<close> on two strings that may be absent.\<close>

definition or_else :: "string option \<Rightarrow> string option \<Rightarrow> string option" where
  "or_else a b = (if truthy_str a then a else b)"

record category_stat =
  cs_key :: string
  cs_listTitle :: string
  cs_categoryTitle :: string
  cs_fullDisplay :: string
  cs_hours :: jsnum
  cs_logCount :: nat
  cs_listSlug :: string
  cs_itemSlug :: string

record item_stat =
  is_slug :: string
  is_title :: string
  is_hours :: jsnum
  is_logCount :: nat

record list_stat =
  ls_slug :: string
  ls_title :: string
  ls_hours :: jsnum
  ls_logCount :: nat
  ls_categories :: "string \<rightharpoonup> item_stat"

text \<open>The four variables of the loop, and the object that is returned.\<close>

record analysis_state =
  st_categoryStats :: "string \<rightharpoonup> category_stat"
  st_categoryListStats :: "string \<rightharpoonup> list_stat"
  st_totalCategorizedHours :: jsnum
  st_uncategorizedHours :: jsnum

record analysis =
  categoryStats :: "string \<rightharpoonup> category_stat"
  categoryListStats :: "string \<rightharpoonup> list_stat"
  totalCategorizedHours :: jsnum
  uncategorizedHours :: jsnum
  totalHours :: jsnum

text \<open>
  The three dictionaries of the analysis are plain objects \<^verbatim>\<open>{}\<close>: a key the loop has not
  written yet is not simply absent, for the object inherits the members of
  \<^verbatim>\<open>Object.prototype\<close>. Those are the names below (the standard ones and the legacy
  accessors of browsers and Node); each reads as a function or an object, so the test
  \<^verbatim>\<open>!obj[key]\<close> is false for them. A dictionary is the map of its own properties, and
  \<open>getProperty\<close> is the read \<^verbatim>\<open>obj[key]\<close>.
\<close>

definition objectPrototypeKeys :: "string list" where
  "objectPrototypeKeys =
     [''constructor'', ''__defineGetter__'', ''__defineSetter__'', ''hasOwnProperty'',
      ''__lookupGetter__'', ''__lookupSetter__'', ''isPrototypeOf'', ''propertyIsEnumerable'',
      ''toString'', ''valueOf'', ''__proto__'', ''toLocaleString'']"

datatype 'a property = Own 'a | Inherited | Missing

definition getProperty :: "(string \<rightharpoonup> 'a) \<Rightarrow> string \<Rightarrow> 'a property" where
  "getProperty obj key =
     (case obj key of
        Some v \<Rightarrow> Own v
      | None \<Rightarrow> if key \<in> set objectPrototypeKeys then Inherited else Missing)"

datatype js_error = TypeError

text \<open>
  The three blocks of the loop body that fill the dictionaries (lines 234 to 274). Under
  an inherited key the initialisation is skipped and \<^verbatim>\<open>hours\<close> and \<^verbatim>\<open>logCount\<close> are
  written onto the inherited member, so the dictionary gets no property of its own; for
  the list dictionary the next line then reads \<^verbatim>\<open>.categories[itemSlug]\<close> of a member that
  has no \<^verbatim>\<open>categories\<close>, which throws a TypeError that nothing catches.
\<close>

definition addToCategory ::
  "(string \<Rightarrow> category_list option) \<Rightarrow> string \<Rightarrow> string \<Rightarrow> string \<Rightarrow> jsnum \<Rightarrow>
   (string \<rightharpoonup> category_stat) \<Rightarrow> (string \<rightharpoonup> category_stat)" where
  "addToCategory dir categoryValue listSlug itemSlug h stats =
     (case getProperty stats categoryValue of
        Inherited \<Rightarrow> stats
      | Own entry \<Rightarrow>
          stats(categoryValue \<mapsto> entry\<lparr>cs_hours := js_add (cs_hours entry) h,
                                         cs_logCount := cs_logCount entry + 1\<rparr>)
      | Missing \<Rightarrow>
          (let categoryInfo = getCategoryDisplayInfo dir (Some categoryValue);
               entry = \<lparr>cs_key = categoryValue, cs_listTitle = listTitle categoryInfo,
                         cs_categoryTitle = itemTitle categoryInfo,
                         cs_fullDisplay = fullDisplay categoryInfo,
                         cs_hours = Num 0, cs_logCount = 0,
                         cs_listSlug = listSlug, cs_itemSlug = itemSlug\<rparr>
           in stats(categoryValue \<mapsto> entry\<lparr>cs_hours := js_add (cs_hours entry) h,
                                             cs_logCount := cs_logCount entry + 1\<rparr>)))"

definition addToItem ::
  "(string \<Rightarrow> category_list option) \<Rightarrow> string \<Rightarrow> string \<Rightarrow> jsnum \<Rightarrow>
   (string \<rightharpoonup> item_stat) \<Rightarrow> (string \<rightharpoonup> item_stat)" where
  "addToItem dir categoryValue itemSlug h items =
     (case getProperty items itemSlug of
        Inherited \<Rightarrow> items
      | Own entry \<Rightarrow>
          items(itemSlug \<mapsto> entry\<lparr>is_hours := js_add (is_hours entry) h,
                                     is_logCount := is_logCount entry + 1\<rparr>)
      | Missing \<Rightarrow>
          (let categoryInfo = getCategoryDisplayInfo dir (Some categoryValue);
               entry = \<lparr>is_slug = itemSlug, is_title = itemTitle categoryInfo,
                         is_hours = Num 0, is_logCount = 0\<rparr>
           in items(itemSlug \<mapsto> entry\<lparr>is_hours := js_add (is_hours entry) h,
                                         is_logCount := is_logCount entry + 1\<rparr>)))"

definition addToList ::
  "(string \<Rightarrow> category_list option) \<Rightarrow> string \<Rightarrow> string \<Rightarrow> string \<Rightarrow> jsnum \<Rightarrow>
   (string \<rightharpoonup> list_stat) \<Rightarrow> js_error + (string \<rightharpoonup> list_stat)" where
  "addToList dir categoryValue listSlug itemSlug h listStats =
     (case getProperty listStats listSlug of
        Inherited \<Rightarrow> Inl TypeError
      | Own entry \<Rightarrow>
          Inr (listStats(listSlug \<mapsto>
                 entry\<lparr>ls_hours := js_add (ls_hours entry) h,
                       ls_logCount := ls_logCount entry + 1,
                       ls_categories := addToItem dir categoryValue itemSlug h (ls_categories entry)\<rparr>))
      | Missing \<Rightarrow>
          (let entry = \<lparr>ls_slug = listSlug,
                         ls_title = (case dir listSlug of Some categoryList \<Rightarrow> cl_title categoryList
                                     | None \<Rightarrow> listSlug),
                         ls_hours = Num 0, ls_logCount = 0, ls_categories = Map.empty\<rparr>
           in Inr (listStats(listSlug \<mapsto>
                     entry\<lparr>ls_hours := js_add (ls_hours entry) h,
                           ls_logCount := ls_logCount entry + 1,
                           ls_categories :=
                             addToItem dir categoryValue itemSlug h (ls_categories entry)\<rparr>))))"

text \<open>One turn of the loop over the time logs; \<open>Inl\<close> is the exception that ends the call.\<close>

definition analyzeLog ::
  "(string \<Rightarrow> category_list option) \<Rightarrow> analysis_state \<Rightarrow> time_log \<Rightarrow> js_error + analysis_state" where
  "analyzeLog dir st timeLog =
     (let categoryValue = or_else (category timeLog) (categoryKey timeLog)
      in if truthy_str categoryValue then
           (let st1 = st\<lparr>st_totalCategorizedHours :=
                            js_add (st_totalCategorizedHours st) (toNumber (hours timeLog))\<rparr>
            in case parseCategoryKey categoryValue of (listSlug, itemSlug) \<Rightarrow>
                 if truthy_str listSlug \<and> truthy_str itemSlug then
                   (let st2 = st1\<lparr>st_categoryStats :=
                                     addToCategory dir (str_of categoryValue) (str_of listSlug)
                                       (str_of itemSlug) (toNumber (hours timeLog))
                                       (st_categoryStats st1)\<rparr>
                    in case addToList dir (str_of categoryValue) (str_of listSlug) (str_of itemSlug)
                              (toNumber (hours timeLog)) (st_categoryListStats st2) of
                         Inl e \<Rightarrow> Inl e
                       | Inr listStats \<Rightarrow> Inr (st2\<lparr>st_categoryListStats := listStats\<rparr>))
                 else Inr st1)
         else Inr (st\<lparr>st_uncategorizedHours :=
                         js_add (st_uncategorizedHours st) (toNumber (hours timeLog))\<rparr>))"

text \<open>The loop \<^verbatim>\<open>for (const log of timeLogs)\<close>, which stops at the first exception.\<close>

fun analyzeLogs ::
  "(string \<Rightarrow> category_list option) \<Rightarrow> analysis_state \<Rightarrow> time_log list \<Rightarrow> js_error + analysis_state" where
  "analyzeLogs dir st [] = Inr st"
| "analyzeLogs dir st (timeLog # rest) =
     (case analyzeLog dir st timeLog of
        Inl e \<Rightarrow> Inl e
      | Inr st' \<Rightarrow> analyzeLogs dir st' rest)"

definition analyzeCategoriesInTimeLogs ::
  "(string \<Rightarrow> category_list option) \<Rightarrow> time_log list \<Rightarrow> js_error + analysis" where
  "analyzeCategoriesInTimeLogs dir logs =
     (case analyzeLogs dir
             \<lparr>st_categoryStats = Map.empty, st_categoryListStats = Map.empty,
              st_totalCategorizedHours = Num 0, st_uncategorizedHours = Num 0\<rparr> logs of
        Inl e \<Rightarrow> Inl e
      | Inr st \<Rightarrow>
          Inr \<lparr>categoryStats = st_categoryStats st, categoryListStats = st_categoryListStats st,
               totalCategorizedHours = st_totalCategorizedHours st,
               uncategorizedHours = st_uncategorizedHours st,
               totalHours = js_add (st_totalCategorizedHours st) (st_uncategorizedHours st)\<rparr>)"

definition calculateTotalHours :: "time_log list \<Rightarrow> rat" where
  "calculateTotalHours logs = foldl (\<lambda>total timeLog. total + num_or (hours timeLog) 0) 0 logs"

text \<open>
  The hours of a list of logs added up from the left, as the loop adds them; and the value
  a log is grouped by, \<^verbatim>\<open>log.category || log.categoryKey\<close>.
\<close>

definition sumHours :: "time_log list \<Rightarrow> jsnum" where
  "sumHours logs = foldl (\<lambda>total timeLog. js_add total (toNumber (hours timeLog))) (Num 0) logs"

definition categoryValueOf :: "time_log \<Rightarrow> string option" where
  "categoryValueOf timeLog = or_else (category timeLog) (categoryKey timeLog)"

text \<open>
  The logs that belong to the bucket of a key: those grouped by this key, when the key
  parses into two non-empty slugs. \<open>bucketOf\<close> is the bucket these logs add up to.
\<close>

definition inBucket :: "string \<Rightarrow> time_log \<Rightarrow> bool" where
  "inBucket key l \<longleftrightarrow>
     categoryValueOf l = Some key
     \<and> (case parseCategoryKey (Some key) of (listSlug, itemSlug) \<Rightarrow>
          truthy_str listSlug \<and> truthy_str itemSlug)"

definition bucketOf :: "(string \<Rightarrow> category_list option) \<Rightarrow> string \<Rightarrow> time_log list \<Rightarrow> category_stat" where
  "bucketOf dir key logs =
     \<lparr>cs_key = key,
      cs_listTitle = listTitle (getCategoryDisplayInfo dir (Some key)),
      cs_categoryTitle = itemTitle (getCategoryDisplayInfo dir (Some key)),
      cs_fullDisplay = fullDisplay (getCategoryDisplayInfo dir (Some key)),
      cs_hours = sumHours logs, cs_logCount = length logs,
      cs_listSlug = str_of (fst (parseCategoryKey (Some key))),
      cs_itemSlug = str_of (snd (parseCategoryKey (Some key)))\<rparr>"

text \<open>
  The lists of logs on which the loop meets no inherited list slug: no log has a category
  value that parses into two non-empty slugs with the first a member of
  \<^verbatim>\<open>Object.prototype\<close>.
\<close>

definition inheritedListSlug :: "time_log \<Rightarrow> bool" where
  "inheritedListSlug l \<longleftrightarrow>
     (case parseCategoryKey (categoryValueOf l) of (listSlug, itemSlug) \<Rightarrow>
        truthy_str listSlug \<and> truthy_str itemSlug \<and> str_of listSlug \<in> set objectPrototypeKeys)"

section \<open>The operations as one step function\<close>

text \<open>
  The mutating operations the two services export, and the step that runs one of them.
\<close>

datatype operation =
    SaveTask task bool
  | DeleteTask nat
  | UpdateRemainingHours nat rat string
  | SaveTimeLog time_log
  | DeleteTimeLog nat

fun perform :: "(rat \<Rightarrow> string) \<Rightarrow> string \<Rightarrow> db \<Rightarrow> operation \<Rightarrow> bool \<times> db" where
  "perform numToString now d (SaveTask task isEdit) = saveTask now d task isEdit"
| "perform numToString now d (DeleteTask taskId) = deleteTask d taskId"
| "perform numToString now d (UpdateRemainingHours taskId newRemainingHours note) =
     updateRemainingHours numToString now d taskId newRemainingHours note"
| "perform numToString now d (SaveTimeLog timeLog) = saveTimeLog now d timeLog"
| "perform numToString now d (DeleteTimeLog logId) = deleteTimeLog d logId"

text \<open>
  What the history invariant says of one task: the history is there, is not empty, and
  its timestamps do not decrease. \<open>historyOf\<close> reads a stored task's history the way
  \<^verbatim>\<open>saveTask\<close> does, with the single entry it makes up for a task that has none.
\<close>

definition historyInvariant :: "task \<Rightarrow> bool" where
  "historyInvariant t =
     (case statusHistory t of
        None \<Rightarrow> False
      | Some h \<Rightarrow> h \<noteq> [] \<and> sorted (map se_timestamp h))"

definition historyOf :: "string \<Rightarrow> task \<Rightarrow> status_event list" where
  "historyOf now t =
     (case statusHistory t of
        Some h \<Rightarrow> h
      | None \<Rightarrow> [\<lparr>se_status = status t, se_timestamp = str_or (createdAt t) now,
                   se_note = ''Legacy task - initial status''\<rparr>])"

text \<open>
  The calls the user interface makes: a new task has no id yet, and an edit carries a
  status and the id of a stored task.
\<close>

fun wellFormedOp :: "db \<Rightarrow> operation \<Rightarrow> bool" where
  "wellFormedOp d (SaveTask task isEdit) =
     (if isEdit
      then truthy_str (status task) \<and> truthy_key (task_id task)
           \<and> (case task_id task of None \<Rightarrow> False | Some k \<Rightarrow> getTaskById d k \<noteq> None)
      else task_id task = None)"
| "wellFormedOp d _ = True"

text \<open>The clock has not been set back: no stored timestamp is later than \<open>now\<close>.\<close>

definition clockAhead :: "string \<Rightarrow> db \<Rightarrow> bool" where
  "clockAhead now d =
     list_all (\<lambda>r. list_all (\<lambda>e. se_timestamp e \<le> now) (historyOf now (snd r))) (rows (tasks d))"

section \<open>Example data\<close>

definition exTask1 :: task where
  "exTask1 = \<lparr>task_id = Some 1, title = ''Write report'', status = Some ''Estimated'',
     estimate = Some 10, remainingHours = Some 10,
     statusHistory = Some [\<lparr>se_status = Some ''Ready'', se_timestamp = ''2024-01-01T09:00:00.000Z'',
                             se_note = ''Task created''\<rparr>,
                           \<lparr>se_status = Some ''Estimated'', se_timestamp = ''2024-01-02T09:00:00.000Z'',
                             se_note = ''Ready => Estimated''\<rparr>],
     createdAt = Some ''2024-01-01T09:00:00.000Z'', initialRemainingHoursEntry = None\<rparr>"

definition exTask2 :: task where
  "exTask2 = \<lparr>task_id = Some 2, title = ''Old task'', status = Some ''Ready'',
     estimate = None, remainingHours = None, statusHistory = None,
     createdAt = Some ''2023-12-01T08:00:00.000Z'', initialRemainingHoursEntry = None\<rparr>"

definition exNewTask :: task where
  "exNewTask = \<lparr>task_id = None, title = ''New task'', status = None,
     estimate = Some 10, remainingHours = None, statusHistory = None,
     createdAt = None, initialRemainingHoursEntry = None\<rparr>"

definition exLog1 :: time_log where
  "exLog1 = \<lparr>log_id = Some 1, log_taskId = Some 1, hours = Some 2, dateLogged = Some ''2024-01-03'',
     category = None, categoryKey = Some ''work.coding'', log_notes = ''Quick log: 2h''\<rparr>"

definition exLog2 :: time_log where
  "exLog2 = \<lparr>log_id = Some 2, log_taskId = Some 1, hours = Some 4, dateLogged = Some ''2024-01-05'',
     category = None, categoryKey = Some ''work.coding'', log_notes = ''Quick log: 4h''\<rparr>"

definition exLog3 :: time_log where
  "exLog3 = \<lparr>log_id = Some 3, log_taskId = Some 2, hours = Some 1, dateLogged = Some ''2024-01-04'',
     category = Some ''work'', categoryKey = None, log_notes = []\<rparr>"

definition exNewLog :: time_log where
  "exNewLog = \<lparr>log_id = None, log_taskId = Some 1, hours = Some 3, dateLogged = None,
     category = None, categoryKey = None, log_notes = []\<rparr>"

definition exEntry1 :: rh_entry where
  "exEntry1 = \<lparr>rh_id = Some 1, rh_taskId = Some 1, rh_remainingHours = 10,
     rh_previousRemainingHours = None, rh_timestamp = ''2024-01-01T09:00:00.000Z'',
     rh_note = ''Initial estimate''\<rparr>"

definition exEntry2 :: rh_entry where
  "exEntry2 = \<lparr>rh_id = Some 2, rh_taskId = Some 2, rh_remainingHours = 5,
     rh_previousRemainingHours = Some 6, rh_timestamp = ''2023-12-02T08:00:00.000Z'',
     rh_note = ''Auto-decremented by 1h time log''\<rparr>"

definition exDb :: db where
  "exDb = \<lparr>tasks = \<lparr>rows = [(1, exTask1), (2, exTask2)], nextKey = 3\<rparr>,
            timeLogs = \<lparr>rows = [(1, exLog1), (2, exLog2), (3, exLog3)], nextKey = 4\<rparr>,
            remainingHoursHistory = \<lparr>rows = [(1, exEntry1), (2, exEntry2)], nextKey = 3\<rparr>\<rparr>"

definition exNow :: string where
  "exNow = ''2024-01-10T12:30:00.000Z''"

definition exNumToString :: "rat \<Rightarrow> string" where
  "exNumToString x = (if x = 10 then ''10'' else if x = 7 then ''7'' else ''?'')"

section \<open>Properties of the status transition table\<close>

text \<open>
  C1. For every pair of the nine statuses, \<^verbatim>\<open>isValidStatusTransition(from, to)\<close> is true
  exactly when the two are equal or the pair is listed in the transition table of section
  4.1; and from \<^verbatim>\<open>Archived\<close> no transition to any other value is valid.
\<close>

theorem isValidStatusTransition_table:
  "(\<forall>f \<in> set statuses. \<forall>t \<in> set statuses.
      isValidStatusTransition (Some f) (Some t) = (f = t \<or> (f, t) \<in> set specTransitionTable))
   \<and> (\<forall>s. s \<noteq> Some ''Archived'' \<longrightarrow> \<not> isValidStatusTransition (Some ''Archived'') s)"
proof (intro conjI allI impI)
  show "\<forall>f \<in> set statuses. \<forall>t \<in> set statuses.
      isValidStatusTransition (Some f) (Some t) = (f = t \<or> (f, t) \<in> set specTransitionTable)"
    by (simp add: statuses_def specTransitionTable_def stateTransitions_def)
next
  fix s :: "string option"
  assume "s \<noteq> Some ''Archived''"
  then show "\<not> isValidStatusTransition (Some ''Archived'') s"
    by (cases s) (auto simp: stateTransitions_def)
qed

theorem isValidStatusTransition_table_witness:
  "''Estimated'' \<in> set statuses \<and> ''Archived'' \<in> set statuses
   \<and> isValidStatusTransition (Some ''Estimated'') (Some ''Archived'')
   \<and> \<not> isValidStatusTransition (Some ''Archived'') (Some ''InProgress'')"
proof -
  have e: "''Estimated'' \<in> set statuses" and a: "''Archived'' \<in> set statuses"
    by (simp_all add: statuses_def)
  have listed: "''Estimated'' = ''Archived'' \<or> (''Estimated'', ''Archived'') \<in> set specTransitionTable"
    by (simp add: specTransitionTable_def)
  have ne: "Some ''InProgress'' \<noteq> Some ''Archived''"
    by simp
  note t = isValidStatusTransition_table [THEN conjunct1, rule_format, OF e a]
  note n = isValidStatusTransition_table [THEN conjunct2, rule_format, OF ne]
  from listed have v: "isValidStatusTransition (Some ''Estimated'') (Some ''Archived'')"
    by (rule iffD2 [OF t])
  from e a v n show ?thesis
    by (intro conjI)
qed

section \<open>Facts about the store\<close>

lemma map_of_upsert: "map_of (upsert k v rs) = (map_of rs)(k \<mapsto> v)"
  by (induction rs) (auto simp: fun_eq_iff)

lemma upsert_fresh: "list_all (\<lambda>r. fst r < k) rs \<Longrightarrow> upsert k v rs = rs @ [(k, v)]"
  by (induction rs) auto

lemma keys_upsert: "fst ` set (upsert k v rs) = insert k (fst ` set rs)"
proof (induction rs)
  case Nil
  show ?case by simp
next
  case (Cons r rs)
  obtain a b where r: "r = (a, b)" by (cases r)
  show ?case
    unfolding r using Cons.IH by (simp add: insert_commute)
qed

lemma sorted_upsert:
  "sorted_wrt (<) (map fst rs) \<Longrightarrow> sorted_wrt (<) (map fst (upsert k v rs))"
proof (induction rs)
  case Nil
  then show ?case by simp
next
  case (Cons r rs)
  have "\<forall>x \<in> fst ` set (upsert k v rs). fst r < x" if "\<not> k < fst r" "k \<noteq> fst r"
    unfolding keys_upsert using that Cons.prems by auto
  with Cons show ?case
    by (cases r) auto
qed

lemma sorted_keys_distinct: "sorted_wrt (<) (map fst rs) \<Longrightarrow> distinct (map fst rs)"
  for rs :: "(nat \<times> 'a) list"
  using strict_sorted_iff [of "map fst rs"] by blast

lemma set_upsert: "set (upsert k v rs) \<subseteq> insert (k, v) (set rs)"
  by (induction rs) (auto split: if_splits)

lemma map_of_filter_key:
  "map_of (filter (\<lambda>r. fst r \<noteq> k) rs) k' = (if k' = k then None else map_of rs k')"
  by (induction rs) auto

lemma store_get_put:
  "store_get (snd (store_put setId key v s)) k' =
     (case key of
        None \<Rightarrow> if k' = nextKey s then Some (setId (nextKey s) v) else store_get s k'
      | Some k \<Rightarrow> if k' = k then Some v else store_get s k')"
  by (simp add: store_get_def store_put_def map_of_upsert split: option.split)

lemma store_get_delete:
  "store_get (store_delete k s) k' = (if k' = k then None else store_get s k')"
  by (simp add: store_get_def store_delete_def map_of_filter_key)

lemma store_get_fresh: "store_ok idOf s \<Longrightarrow> store_get s (nextKey s) = None"
proof -
  assume "store_ok idOf s"
  then have "\<forall>r \<in> set (rows s). fst r < nextKey s"
    by (simp add: store_ok_def list_all_iff)
  then have "nextKey s \<notin> fst ` set (rows s)"
    by auto
  then show ?thesis
    by (simp add: store_get_def map_of_eq_None_iff)
qed

lemma store_get_id: "store_ok idOf s \<Longrightarrow> store_get s k = Some v \<Longrightarrow> idOf v = Some k"
proof -
  assume ok: "store_ok idOf s" and "store_get s k = Some v"
  then have "(k, v) \<in> set (rows s)"
    by (simp add: store_get_def map_of_SomeD)
  with ok show ?thesis
    by (auto simp: store_ok_def list_all_iff)
qed

lemma store_add_fresh:
  assumes "store_ok idOf s"
  shows "store_add setId None v s =
           Some (nextKey s, \<lparr>rows = rows s @ [(nextKey s, setId (nextKey s) v)],
                             nextKey = nextKey s + 1\<rparr>)"
proof -
  from assms have "list_all (\<lambda>r. fst r < nextKey s) (rows s)"
    by (simp add: store_ok_def list_all_iff)
  then have "upsert (nextKey s) (setId (nextKey s) v) (rows s) = rows s @ [(nextKey s, setId (nextKey s) v)]"
    by (rule upsert_fresh)
  with store_get_fresh [OF assms] show ?thesis
    by (simp add: store_add_def store_put_def)
qed

lemma store_ok_put:
  assumes "store_ok idOf s" and "\<And>k x. idOf (setId k x) = Some k" and "key \<noteq> None \<Longrightarrow> idOf v = key"
  shows "store_ok idOf (snd (store_put setId key v s))"
proof -
  from assms(1) have d: "sorted_wrt (<) (map fst (rows s))"
    and b: "\<forall>r \<in> set (rows s). fst r < nextKey s \<and> idOf (snd r) = Some (fst r)"
    by (simp_all add: store_ok_def list_all_iff)
  show ?thesis
  proof (cases key)
    case None
    have "\<forall>r \<in> set (upsert (nextKey s) (setId (nextKey s) v) (rows s)).
            fst r < nextKey s + 1 \<and> idOf (snd r) = Some (fst r)"
      using b set_upsert [of "nextKey s" "setId (nextKey s) v" "rows s"] assms(2)
      by (auto simp: less_Suc_eq)
    with None d show ?thesis
      by (simp add: store_ok_def store_put_def list_all_iff sorted_upsert)
  next
    case (Some k)
    with assms(3) have "idOf v = Some k" by simp
    then have "\<forall>r \<in> set (upsert k v (rows s)).
            fst r < max (nextKey s) (k + 1) \<and> idOf (snd r) = Some (fst r)"
      using b set_upsert [of k v "rows s"]
      by (auto simp: less_max_iff_disj)
    with Some d show ?thesis
      by (simp add: store_ok_def store_put_def list_all_iff sorted_upsert)
  qed
qed

lemma sorted_keys_filter:
  "sorted_wrt (<) (map fst rs) \<Longrightarrow> sorted_wrt (<) (map fst (filter P rs))"
  by (induction rs) auto

lemma store_ok_delete: "store_ok idOf s \<Longrightarrow> store_ok idOf (store_delete k s)"
  by (auto simp: store_ok_def store_delete_def list_all_iff sorted_keys_filter)

text \<open>
  The loop that deletes the rows an index lists: under \<open>store_ok\<close> it succeeds and
  removes exactly the rows with that index value.
\<close>

lemma deleteEach_rows:
  "\<forall>x \<in> set xs. idOf x \<noteq> None \<Longrightarrow>
   deleteEach idOf xs s = Some (s\<lparr>rows := filter (\<lambda>r. Some (fst r) \<notin> idOf ` set xs) (rows s)\<rparr>)"
proof (induction xs arbitrary: s)
  case Nil
  then show ?case by simp
next
  case (Cons x xs)
  then obtain k where k: "idOf x = Some k" by auto
  have "filter (\<lambda>r. Some (fst r) \<notin> idOf ` set xs) (filter (\<lambda>r. fst r \<noteq> k) (rows s))
        = filter (\<lambda>r. Some (fst r) \<notin> idOf ` set (x # xs)) (rows s)"
    using k by (auto intro: filter_cong)
  with Cons k show ?case
    by (simp add: store_delete_def)
qed

lemma deleteEach_index:
  assumes "store_ok idOf s"
  shows "deleteEach idOf (store_getAllFromIndex ix k s) s =
           Some (s\<lparr>rows := filter (\<lambda>r. ix (snd r) \<noteq> Some k) (rows s)\<rparr>)"
proof -
  let ?xs = "store_getAllFromIndex ix k s"
  from assms have d: "distinct (map fst (rows s))"
    and ids: "\<forall>r \<in> set (rows s). idOf (snd r) = Some (fst r)"
    by (simp_all add: store_ok_def list_all_iff sorted_keys_distinct)
  have xs: "set ?xs = {v. \<exists>r \<in> set (rows s). v = snd r \<and> ix v = Some k}"
    by (auto simp: store_getAllFromIndex_def)
  with ids have "\<forall>x \<in> set ?xs. idOf x \<noteq> None"
    by auto
  then have del: "deleteEach idOf ?xs s =
      Some (s\<lparr>rows := filter (\<lambda>r. Some (fst r) \<notin> idOf ` set ?xs) (rows s)\<rparr>)"
    by (rule deleteEach_rows)
  have "(Some (fst r) \<notin> idOf ` set ?xs) = (ix (snd r) \<noteq> Some k)" if r: "r \<in> set (rows s)" for r
  proof
    assume "Some (fst r) \<notin> idOf ` set ?xs"
    with r ids xs show "ix (snd r) \<noteq> Some k"
      by (metis (mono_tags, lifting) image_eqI mem_Collect_eq)
  next
    assume n: "ix (snd r) \<noteq> Some k"
    show "Some (fst r) \<notin> idOf ` set ?xs"
    proof
      assume "Some (fst r) \<in> idOf ` set ?xs"
      with xs obtain r' where r': "r' \<in> set (rows s)" "ix (snd r') = Some k" "idOf (snd r') = Some (fst r)"
        by force
      with ids have "fst r' = fst r" by auto
      with d r r' have "r' = r"
        by (metis distinct_map inj_onD)
      with n r' show False by simp
    qed
  qed
  then have "filter (\<lambda>r. Some (fst r) \<notin> idOf ` set ?xs) (rows s)
             = filter (\<lambda>r. ix (snd r) \<noteq> Some k) (rows s)"
    by (intro filter_cong refl)
  with del show ?thesis by simp
qed


section \<open>Properties of the time-log service\<close>

lemma exDb_ok: "db_ok exDb"
  by (simp add: db_ok_def store_ok_def exDb_def exTask1_def exTask2_def exLog1_def exLog2_def
      exLog3_def exEntry1_def exEntry2_def)

lemma saveTimeLog_refused:
  assumes "\<not> (\<exists>k task. log_taskId timeLog = Some k \<and> getTaskById d k = Some task
              \<and> (status task = Some ''Estimated'' \<or> status task = Some ''InProgress''))"
  shows "saveTimeLog now d timeLog = (False, d)"
proof (cases "log_taskId timeLog")
  case None
  then show ?thesis by (simp add: saveTimeLog_def)
next
  case (Some k)
  show ?thesis
  proof (cases "store_get (tasks d) k")
    case None
    with Some show ?thesis by (simp add: saveTimeLog_def)
  next
    case (Some task)
    with \<open>log_taskId timeLog = Some k\<close> assms
    have "\<not> includesStatus loggableStatuses (status task)"
      by (cases "status task") (auto simp: getTaskById_def loggableStatuses_def)
    with Some \<open>log_taskId timeLog = Some k\<close> show ?thesis
      by (simp add: saveTimeLog_def)
  qed
qed

lemma saveTimeLog_accepted:
  assumes "log_taskId timeLog = Some k" and "getTaskById d k = Some task"
    and "status task = Some ''Estimated'' \<or> status task = Some ''InProgress''"
  shows "saveTimeLog now d timeLog =
           (True, d\<lparr>timeLogs := snd (store_put set_log_id (log_id timeLog)
              (timeLog\<lparr>dateLogged := (if truthy_str (dateLogged timeLog) then dateLogged timeLog
                                         else Some (dateOf now))\<rparr>) (timeLogs d))\<rparr>)"
proof -
  from assms(3) have "includesStatus loggableStatuses (status task)"
    by (auto simp: loggableStatuses_def)
  with assms(1,2) show ?thesis
    by (simp add: saveTimeLog_def getTaskById_def split: prod.splits)
qed



text \<open>
  C8. \<^verbatim>\<open>getTimeLogs(taskId, startDate, endDate)\<close> without bounds returns the logs of the task
  (all logs when \<^verbatim>\<open>taskId\<close> is null or 0). With only one bound, or with a bound that is the
  empty string, it returns the same list; only with both bounds does it keep the logs
  whose \<^verbatim>\<open>dateLogged\<close> lies between them, bounds included.
\<close>

theorem getTimeLogs_date_filter:
  "(let unfiltered = (if truthy_key taskId
                      then filter (\<lambda>l. log_taskId l = taskId) (store_getAll (timeLogs d))
                      else store_getAll (timeLogs d))
    in getTimeLogs d taskId None None = unfiltered
     \<and> getTimeLogs d taskId (Some s) None = unfiltered
     \<and> getTimeLogs d taskId None (Some e) = unfiltered
     \<and> (s = [] \<or> e = [] \<longrightarrow> getTimeLogs d taskId (Some s) (Some e) = unfiltered)
     \<and> (s \<noteq> [] \<and> e \<noteq> [] \<longrightarrow>
          getTimeLogs d taskId (Some s) (Some e) =
            filter (\<lambda>l. \<exists>dl. dateLogged l = Some dl \<and> s \<le> dl \<and> dl \<le> e) unfiltered))"
proof -
  let ?all = "store_getAll (timeLogs d)"
  let ?unfiltered = "if truthy_key taskId then filter (\<lambda>l. log_taskId l = taskId) ?all else ?all"
  have base: "(case taskId of
                 None \<Rightarrow> ?all
               | Some k \<Rightarrow> if k \<noteq> 0 then store_getAllFromIndex log_taskId k (timeLogs d) else ?all)
              = ?unfiltered"
    by (cases taskId) (simp_all add: store_getAllFromIndex_def store_getAll_def)
  have none: "getTimeLogs d taskId a b = ?unfiltered" if "\<not> truthy_str a \<or> \<not> truthy_str b" for a b
    using that unfolding getTimeLogs_def Let_def base by auto
  have between: "(date_ge (dateLogged l) (Some s) \<and> date_le (dateLogged l) (Some e))
                 = (\<exists>dl. dateLogged l = Some dl \<and> s \<le> dl \<and> dl \<le> e)" for l :: time_log
    by (cases "dateLogged l") auto
  have both: "getTimeLogs d taskId (Some s) (Some e) =
      filter (\<lambda>l. \<exists>dl. dateLogged l = Some dl \<and> s \<le> dl \<and> dl \<le> e) ?unfiltered"
    if "s \<noteq> []" "e \<noteq> []"
    using that unfolding getTimeLogs_def Let_def base by (simp add: between)
  have "getTimeLogs d taskId None None = ?unfiltered"
    and "getTimeLogs d taskId (Some s) None = ?unfiltered"
    and "getTimeLogs d taskId None (Some e) = ?unfiltered"
    and "s = [] \<or> e = [] \<longrightarrow> getTimeLogs d taskId (Some s) (Some e) = ?unfiltered"
    by (simp_all add: none)
  with both show ?thesis
    unfolding Let_def by blast
qed

theorem getTimeLogs_date_filter_witness:
  "getTimeLogs exDb (Some 1) None None = [exLog1, exLog2]
   \<and> getTimeLogs exDb (Some 1) (Some ''2024-01-04'') None = [exLog1, exLog2]
   \<and> getTimeLogs exDb (Some 1) None (Some ''2024-01-04'') = [exLog1, exLog2]
   \<and> getTimeLogs exDb (Some 1) (Some ''2024-01-04'') (Some ''2024-01-31'') = [exLog2]"
proof -
  have u: "(if truthy_key (Some 1)
            then filter (\<lambda>l. log_taskId l = Some 1) (store_getAll (timeLogs exDb))
            else store_getAll (timeLogs exDb)) = [exLog1, exLog2]"
    by (simp add: store_getAll_def exDb_def exLog1_def exLog2_def exLog3_def)
  have f: "filter (\<lambda>l. \<exists>dl. dateLogged l = Some dl \<and> ''2024-01-04'' \<le> dl \<and> dl \<le> ''2024-01-31'')
             [exLog1, exLog2] = [exLog2]"
    by (simp add: exLog1_def exLog2_def)
  have ne: "''2024-01-04'' \<noteq> [] \<and> ''2024-01-31'' \<noteq> []"
    by simp
  from getTimeLogs_date_filter [of "Some 1" exDb "''2024-01-04''" "''2024-01-31''"]
  have "getTimeLogs exDb (Some 1) None None = [exLog1, exLog2]"
    and "getTimeLogs exDb (Some 1) (Some ''2024-01-04'') None = [exLog1, exLog2]"
    and "getTimeLogs exDb (Some 1) (Some ''2024-01-04'') (Some ''2024-01-31'') =
          filter (\<lambda>l. \<exists>dl. dateLogged l = Some dl \<and> ''2024-01-04'' \<le> dl \<and> dl \<le> ''2024-01-31'')
            [exLog1, exLog2]"
    unfolding Let_def u using ne by blast+
  moreover from getTimeLogs_date_filter [of "Some 1" exDb "''x''" "''2024-01-04''"]
  have "getTimeLogs exDb (Some 1) None (Some ''2024-01-04'') = [exLog1, exLog2]"
    unfolding Let_def u by blast
  ultimately show ?thesis
    unfolding f by blast
qed

text \<open>
  C10 as the specification states it fails: a log with 0 hours, which
  \<^verbatim>\<open>validateTimeLog\<close> rejects, is accepted and stored by \<^verbatim>\<open>saveTimeLog\<close>.
\<close>

theorem saveTimeLog_zero_hours_counterexample:
  "\<not> fst (validateTimeLog (exNewLog\<lparr>hours := Some 0\<rparr>))
   \<and> fst (saveTimeLog exNow exDb (exNewLog\<lparr>hours := Some 0\<rparr>))
   \<and> map_option hours (getTimeLogById (snd (saveTimeLog exNow exDb (exNewLog\<lparr>hours := Some 0\<rparr>))) 4)
       = Some (Some 0)"
  by (simp add: validateTimeLog_def saveTimeLog_def getTimeLogById_def store_get_def store_put_def
      set_log_id_def loggableStatuses_def exNewLog_def exDb_def exTask1_def exTask2_def
      exLog1_def exLog2_def exLog3_def)

text \<open>
  C10, amended. \<^verbatim>\<open>validateTimeLog\<close> reports a log valid exactly when its \<^verbatim>\<open>taskId\<close> is
  present and not 0, its \<^verbatim>\<open>hours\<close> is a number greater than 0 and its \<^verbatim>\<open>dateLogged\<close> is a
  non-empty string. \<^verbatim>\<open>saveTimeLog\<close> does not call it: a log without \<^verbatim>\<open>taskId\<close> fails and
  nothing is written; a log that \<^verbatim>\<open>saveTimeLog\<close> accepts is stored with the hours it came
  with and with \<^verbatim>\<open>dateLogged\<close> filled in. So a stored log has hours greater than 0 when
  \<^verbatim>\<open>validateTimeLog\<close> had accepted it.
\<close>

theorem validateTimeLog_then_saveTimeLog:
  "(let result = saveTimeLog now d timeLog;
        key = (case log_id timeLog of None \<Rightarrow> nextKey (timeLogs d) | Some i \<Rightarrow> i)
    in (fst (validateTimeLog timeLog) \<longleftrightarrow>
          truthy_key (log_taskId timeLog) \<and> (\<exists>h. hours timeLog = Some h \<and> 0 < h)
          \<and> truthy_str (dateLogged timeLog))
     \<and> (log_taskId timeLog = None \<longrightarrow> result = (False, d))
     \<and> (fst result \<longrightarrow>
          (\<exists>stored. getTimeLogById (snd result) key = Some stored
             \<and> hours stored = hours timeLog \<and> dateLogged stored \<noteq> None))
     \<and> (fst result \<and> fst (validateTimeLog timeLog) \<longrightarrow>
          (\<exists>stored h. getTimeLogById (snd result) key = Some stored
             \<and> hours stored = Some h \<and> 0 < h)))"
proof -
  let ?key = "case log_id timeLog of None \<Rightarrow> nextKey (timeLogs d) | Some i \<Rightarrow> i"
  have valid: "fst (validateTimeLog timeLog) \<longleftrightarrow>
          truthy_key (log_taskId timeLog) \<and> (\<exists>h. hours timeLog = Some h \<and> 0 < h)
          \<and> truthy_str (dateLogged timeLog)"
    by (cases "hours timeLog") (auto simp: validateTimeLog_def Let_def)
  have missing: "saveTimeLog now d timeLog = (False, d)" if "log_taskId timeLog = None"
    using that by (simp add: saveTimeLog_def)
  have stored: "\<exists>stored. getTimeLogById (snd (saveTimeLog now d timeLog)) ?key = Some stored
             \<and> hours stored = hours timeLog \<and> dateLogged stored \<noteq> None"
    if ok: "fst (saveTimeLog now d timeLog)"
  proof -
    have "\<exists>k task. log_taskId timeLog = Some k \<and> getTaskById d k = Some task
            \<and> (status task = Some ''Estimated'' \<or> status task = Some ''InProgress'')"
    proof (rule ccontr)
      assume "\<not> ?thesis"
      then have "saveTimeLog now d timeLog = (False, d)"
        by (rule saveTimeLog_refused)
      with ok show False by simp
    qed
    then obtain k task where "log_taskId timeLog = Some k" "getTaskById d k = Some task"
      "status task = Some ''Estimated'' \<or> status task = Some ''InProgress''"
      by blast
    then have eq: "saveTimeLog now d timeLog =
        (True, d\<lparr>timeLogs := snd (store_put set_log_id (log_id timeLog)
              (timeLog\<lparr>dateLogged := (if truthy_str (dateLogged timeLog) then dateLogged timeLog
                                         else Some (dateOf now))\<rparr>) (timeLogs d))\<rparr>)"
      by (rule saveTimeLog_accepted)
    show ?thesis
      unfolding eq
      by (cases "log_id timeLog"; cases "dateLogged timeLog")
        (simp_all add: getTimeLogById_def store_get_put set_log_id_def)
  qed
  have checked: "\<exists>stored h. getTimeLogById (snd (saveTimeLog now d timeLog)) ?key = Some stored
             \<and> hours stored = Some h \<and> 0 < h"
    if "fst (saveTimeLog now d timeLog)" "fst (validateTimeLog timeLog)"
    using stored [OF that(1)] that(2) valid by auto
  from valid missing stored checked show ?thesis
    unfolding Let_def by blast
qed

theorem validateTimeLog_then_saveTimeLog_witness:
  "fst (validateTimeLog (exNewLog\<lparr>dateLogged := Some ''2024-01-09''\<rparr>))
   \<and> fst (saveTimeLog exNow exDb (exNewLog\<lparr>dateLogged := Some ''2024-01-09''\<rparr>))
   \<and> (\<exists>stored h. getTimeLogById
          (snd (saveTimeLog exNow exDb (exNewLog\<lparr>dateLogged := Some ''2024-01-09''\<rparr>))) 4 = Some stored
        \<and> hours stored = Some h \<and> 0 < h)
   \<and> saveTimeLog exNow exDb (exNewLog\<lparr>log_taskId := None\<rparr>) = (False, exDb)"
proof -
  let ?l = "exNewLog\<lparr>dateLogged := Some ''2024-01-09''\<rparr>"
  have key: "(case log_id ?l of None \<Rightarrow> nextKey (timeLogs exDb) | Some i \<Rightarrow> i) = 4"
    by (simp add: exNewLog_def exDb_def)
  have v: "truthy_key (log_taskId ?l) \<and> (\<exists>h. hours ?l = Some h \<and> 0 < h) \<and> truthy_str (dateLogged ?l)"
    by (simp add: exNewLog_def)
  have s: "fst (saveTimeLog exNow exDb ?l)"
    by (simp add: saveTimeLog_def store_get_def store_put_def loggableStatuses_def exNewLog_def
        exDb_def exTask1_def split: prod.splits)
  have m: "log_taskId (exNewLog\<lparr>log_taskId := None\<rparr>) = None"
    by simp
  note t = validateTimeLog_then_saveTimeLog [of exNow exDb ?l, unfolded Let_def key]
  from t v have valid: "fst (validateTimeLog ?l)"
    by blast
  with t s have "\<exists>stored h. getTimeLogById (snd (saveTimeLog exNow exDb ?l)) 4 = Some stored
        \<and> hours stored = Some h \<and> 0 < h"
    by blast
  moreover from validateTimeLog_then_saveTimeLog [of exNow exDb "exNewLog\<lparr>log_taskId := None\<rparr>"] m
  have "saveTimeLog exNow exDb (exNewLog\<lparr>log_taskId := None\<rparr>) = (False, exDb)"
    unfolding Let_def by blast
  ultimately show ?thesis
    using valid s by blast
qed


section \<open>Properties of the task service\<close>

text \<open>
  C7. In a well-formed database \<^verbatim>\<open>deleteTask(taskId)\<close> succeeds and, in one step, removes
  the task, exactly the time logs whose \<^verbatim>\<open>taskId\<close> is the given one and exactly the
  remaining-hours entries whose \<^verbatim>\<open>taskId\<close> is the given one; all other rows stay, in their
  order. Afterwards the task is gone, \<^verbatim>\<open>getRemainingHoursHistory(taskId)\<close> is empty, and
  \<^verbatim>\<open>getTimeLogs(taskId)\<close> is empty for every id a task can have (the store's key generator
  starts at 1; \<^verbatim>\<open>getTimeLogs\<close> reads 0 as no task at all).
\<close>

theorem deleteTask_cascade:
  assumes "db_ok d"
  shows "(let result = deleteTask d taskId; d' = snd result
          in fst result
           \<and> rows (tasks d') = filter (\<lambda>r. fst r \<noteq> taskId) (rows (tasks d))
           \<and> rows (timeLogs d') = filter (\<lambda>r. log_taskId (snd r) \<noteq> Some taskId) (rows (timeLogs d))
           \<and> rows (remainingHoursHistory d') =
                filter (\<lambda>r. rh_taskId (snd r) \<noteq> Some taskId) (rows (remainingHoursHistory d))
           \<and> getTaskById d' taskId = None
           \<and> getRemainingHoursHistory d' taskId = []
           \<and> (taskId \<noteq> 0 \<longrightarrow> getTimeLogs d' (Some taskId) None None = []))"
proof -
  from assms have l: "store_ok log_id (timeLogs d)" and h: "store_ok rh_id (remainingHoursHistory d)"
    by (simp_all add: db_ok_def)
  let ?d' = "\<lparr>tasks = store_delete taskId (tasks d),
              timeLogs = (timeLogs d)\<lparr>rows := filter (\<lambda>r. log_taskId (snd r) \<noteq> Some taskId)
                                               (rows (timeLogs d))\<rparr>,
              remainingHoursHistory =
                (remainingHoursHistory d)\<lparr>rows := filter (\<lambda>r. rh_taskId (snd r) \<noteq> Some taskId)
                                                   (rows (remainingHoursHistory d))\<rparr>\<rparr>"
  have eq: "deleteTask d taskId = (True, ?d')"
    by (simp add: deleteTask_def deleteEach_index [OF l] deleteEach_index [OF h])
  have "filter (\<lambda>v. log_taskId v = Some taskId)
          (map snd (filter (\<lambda>r. log_taskId (snd r) \<noteq> Some taskId) rs)) = []" for rs :: "(nat \<times> time_log) list"
    by (induction rs) auto
  then have logs: "taskId \<noteq> 0 \<longrightarrow> getTimeLogs ?d' (Some taskId) None None = []"
    by (simp add: getTimeLogs_def store_getAllFromIndex_def)
  have "filter (\<lambda>v. rh_taskId v = Some taskId)
          (map snd (filter (\<lambda>r. rh_taskId (snd r) \<noteq> Some taskId) rs)) = []" for rs :: "(nat \<times> rh_entry) list"
    by (induction rs) auto
  then have hist: "getRemainingHoursHistory ?d' taskId = []"
    by (simp add: getRemainingHoursHistory_def store_getAllFromIndex_def)
  have gone: "getTaskById ?d' taskId = None"
    by (simp add: getTaskById_def store_get_delete)
  have t: "rows (tasks ?d') = filter (\<lambda>r. fst r \<noteq> taskId) (rows (tasks d))"
    by (simp add: store_delete_def)
  from logs hist gone t show ?thesis
    unfolding Let_def eq by simp
qed

theorem deleteTask_cascade_witness:
  "db_ok exDb \<and> fst (deleteTask exDb 1)
   \<and> rows (tasks (snd (deleteTask exDb 1))) = [(2, exTask2)]
   \<and> rows (timeLogs (snd (deleteTask exDb 1))) = [(3, exLog3)]
   \<and> rows (remainingHoursHistory (snd (deleteTask exDb 1))) = [(2, exEntry2)]
   \<and> getRemainingHoursHistory (snd (deleteTask exDb 1)) 1 = []
   \<and> getTimeLogs (snd (deleteTask exDb 1)) (Some 1) None None = []"
proof -
  have a: "filter (\<lambda>r. fst r \<noteq> 1) (rows (tasks exDb)) = [(2, exTask2)]"
    by (simp add: exDb_def)
  have b: "filter (\<lambda>r. log_taskId (snd r) \<noteq> Some 1) (rows (timeLogs exDb)) = [(3, exLog3)]"
    by (simp add: exDb_def exLog1_def exLog2_def exLog3_def)
  have c: "filter (\<lambda>r. rh_taskId (snd r) \<noteq> Some 1) (rows (remainingHoursHistory exDb)) = [(2, exEntry2)]"
    by (simp add: exDb_def exEntry1_def exEntry2_def)
  have n: "(1::nat) \<noteq> 0"
    by simp
  from deleteTask_cascade [OF exDb_ok, of 1] n exDb_ok show ?thesis
    unfolding Let_def a b c by blast
qed




text \<open>What \<^verbatim>\<open>saveTask\<close> does on its two paths, as equations.\<close>

lemma saveTask_edit_stored:
  assumes "task_id task = Some k" and "k \<noteq> 0" and "getTaskById d k = Some current"
    and "truthy_str (status task)"
  shows "saveTask now d task True =
     (if status current \<noteq> status task \<and> \<not> isValidStatusTransition (status current) (status task)
      then (False, d)
      else (True, d\<lparr>tasks := snd (store_put set_task_id (Some k)
              (task\<lparr>statusHistory :=
                      Some (if status current \<noteq> status task
                            then historyOf now current @
                                   [\<lparr>se_status = status task, se_timestamp = now,
                                     se_note = str_of (status current) @ '' => '' @ str_of (status task)\<rparr>]
                            else historyOf now current),
                    createdAt := Some (str_or (createdAt current) now)\<rparr>) (tasks d))\<rparr>))"
  using assms
  by (simp add: saveTask_def applyStatusEdit_def writeTask_def getTaskById_def historyOf_def Let_def
      split: prod.splits)

lemma saveTask_new:
  assumes "store_ok rh_id (remainingHoursHistory d)" and "initialRemainingHoursEntry task = None"
  shows "saveTask now d task False =
     (let remaining = (case remainingHours task of None \<Rightarrow> num_or (estimate task) 0 | Some r \<Rightarrow> r);
          entry = \<lparr>rh_id = None, rh_taskId = None, rh_remainingHours = remaining,
                    rh_previousRemainingHours = None, rh_timestamp = now,
                    rh_note = ''Initial estimate''\<rparr>;
          task' = task\<lparr>remainingHours := Some remaining,
                       statusHistory := Some [\<lparr>se_status = Some (str_or (status task) ''Ready''),
                                                se_timestamp = now, se_note = ''Task created''\<rparr>],
                       createdAt := Some now,
                       initialRemainingHoursEntry := (if 0 < remaining then Some entry else None)\<rparr>;
          key = (case task_id task of None \<Rightarrow> nextKey (tasks d) | Some i \<Rightarrow> i);
          entryKey = nextKey (remainingHoursHistory d)
      in (True, d\<lparr>tasks := snd (store_put set_task_id (task_id task) task' (tasks d)),
                   remainingHoursHistory :=
                     (if 0 < remaining
                      then \<lparr>rows = rows (remainingHoursHistory d) @
                                    [(entryKey, entry\<lparr>rh_id := Some entryKey, rh_taskId := Some key\<rparr>)],
                            nextKey = entryKey + 1\<rparr>
                      else remainingHoursHistory d)\<rparr>))"
proof -
  have "d\<lparr>tasks := x\<rparr> = d\<lparr>tasks := x, remainingHoursHistory := remainingHoursHistory d\<rparr>" for x
    by simp
  then show ?thesis
    using assms(2)
    by (cases task; cases "remainingHours task"; cases "task_id task")
      (simp_all add: saveTask_def initNewTask_def writeTask_def Let_def store_add_fresh [OF assms(1)]
        set_rh_id_def store_put_def split: prod.splits)
qed

text \<open>
  An edit outside the guard of line 98 (no status, no id, or an id that is not stored) is
  put as it comes and reported as a success.
\<close>

lemma saveTask_edit_unguarded:
  assumes "\<not> truthy_str (status task) \<or> \<not> truthy_key (task_id task)
           \<or> (\<forall>k. task_id task = Some k \<longrightarrow> getTaskById d k = None)"
  shows "saveTask now d task True =
           (True, d\<lparr>tasks := snd (store_put set_task_id (task_id task) task (tasks d))\<rparr>)"
  using assms
  by (auto simp: saveTask_def applyStatusEdit_def writeTask_def getTaskById_def Let_def
      split: prod.splits option.splits)

text \<open>
  C2 as the specification states it fails: an edit that clears the status of a stored
  task changes the status, the transition to no status is not valid, and yet the edit is
  written and reported as a success.
\<close>

theorem saveTask_cleared_status_counterexample:
  "getTaskById exDb 1 = Some exTask1
   \<and> status exTask1 \<noteq> status (exTask1\<lparr>status := None\<rparr>)
   \<and> \<not> isValidStatusTransition (status exTask1) (status (exTask1\<lparr>status := None\<rparr>))
   \<and> fst (saveTask exNow exDb (exTask1\<lparr>status := None\<rparr>) True)
   \<and> map_option status (getTaskById (snd (saveTask exNow exDb (exTask1\<lparr>status := None\<rparr>) True)) 1)
       = Some None"
  by (simp add: saveTask_def applyStatusEdit_def writeTask_def getTaskById_def store_get_def
      store_put_def exDb_def exTask1_def exTask2_def)

text \<open>
  C2, amended. Take an edit \<^verbatim>\<open>saveTask(task, true)\<close> that carries the id of a stored task
  and a status different from the stored one. When the new status is a non-empty string:
  if the transition from the stored status is invalid, the result is \<^verbatim>\<open>false\<close> and the
  database is unchanged; if it is valid, the result is \<^verbatim>\<open>true\<close>, and the task is stored
  with exactly one new \<^verbatim>\<open>StatusEvent\<close> after the existing history (for a stored task
  without history: after the one entry made up for it), with the new status, the current
  time and the note \<^verbatim>\<open>"{old} => {new}"\<close>. When the new status is empty or absent, the
  transition is not checked: the result is \<^verbatim>\<open>true\<close> and the task is stored as it was
  passed. In both successful cases no other task and neither ledger changes.
\<close>

theorem saveTask_status_change:
  assumes "task_id task = Some k" and "k \<noteq> 0" and "getTaskById d k = Some current"
    and "status current \<noteq> status task"
  shows "(let result = saveTask now d task True
          in (truthy_str (status task) \<and> \<not> isValidStatusTransition (status current) (status task) \<longrightarrow>
                result = (False, d))
           \<and> (truthy_str (status task) \<and> isValidStatusTransition (status current) (status task) \<longrightarrow>
                fst result
              \<and> (\<exists>oldStatus newStatus. status current = Some oldStatus \<and> status task = Some newStatus
                   \<and> getTaskById (snd result) k =
                       Some (task\<lparr>statusHistory :=
                                    Some (historyOf now current @
                                            [\<lparr>se_status = Some newStatus, se_timestamp = now,
                                              se_note = oldStatus @ '' => '' @ newStatus\<rparr>]),
                                  createdAt := Some (str_or (createdAt current) now)\<rparr>))
              \<and> (\<forall>k'. k' \<noteq> k \<longrightarrow> getTaskById (snd result) k' = getTaskById d k')
              \<and> timeLogs (snd result) = timeLogs d
              \<and> remainingHoursHistory (snd result) = remainingHoursHistory d)
           \<and> (\<not> truthy_str (status task) \<longrightarrow>
                fst result
              \<and> getTaskById (snd result) k = Some task
              \<and> (\<forall>k'. k' \<noteq> k \<longrightarrow> getTaskById (snd result) k' = getTaskById d k')
              \<and> timeLogs (snd result) = timeLogs d
              \<and> remainingHoursHistory (snd result) = remainingHoursHistory d))"
proof -
  let ?r = "saveTask now d task True"
  have guarded: "(\<not> isValidStatusTransition (status current) (status task) \<longrightarrow> ?r = (False, d))
           \<and> (isValidStatusTransition (status current) (status task) \<longrightarrow>
                fst ?r
              \<and> (\<exists>oldStatus newStatus. status current = Some oldStatus \<and> status task = Some newStatus
                   \<and> getTaskById (snd ?r) k =
                       Some (task\<lparr>statusHistory :=
                                    Some (historyOf now current @
                                            [\<lparr>se_status = Some newStatus, se_timestamp = now,
                                              se_note = oldStatus @ '' => '' @ newStatus\<rparr>]),
                                  createdAt := Some (str_or (createdAt current) now)\<rparr>))
              \<and> (\<forall>k'. k' \<noteq> k \<longrightarrow> getTaskById (snd ?r) k' = getTaskById d k')
              \<and> timeLogs (snd ?r) = timeLogs d
              \<and> remainingHoursHistory (snd ?r) = remainingHoursHistory d)"
    if tr: "truthy_str (status task)"
  proof -
    note eq = saveTask_edit_stored [OF assms(1,2,3) tr, of now]
    from tr obtain newStatus where new: "status task = Some newStatus"
      by (cases "status task") auto
    have invalid: "?r = (False, d)"
      if "\<not> isValidStatusTransition (status current) (status task)"
      using that assms(4) by (simp add: eq)
    have valid: "fst ?r
              \<and> (\<exists>oldStatus newStatus. status current = Some oldStatus \<and> status task = Some newStatus
                   \<and> getTaskById (snd ?r) k =
                       Some (task\<lparr>statusHistory :=
                                    Some (historyOf now current @
                                            [\<lparr>se_status = Some newStatus, se_timestamp = now,
                                              se_note = oldStatus @ '' => '' @ newStatus\<rparr>]),
                                  createdAt := Some (str_or (createdAt current) now)\<rparr>))
              \<and> (\<forall>k'. k' \<noteq> k \<longrightarrow> getTaskById (snd ?r) k' = getTaskById d k')
              \<and> timeLogs (snd ?r) = timeLogs d
              \<and> remainingHoursHistory (snd ?r) = remainingHoursHistory d"
      if v: "isValidStatusTransition (status current) (status task)"
    proof -
      from v obtain oldStatus where old: "status current = Some oldStatus"
        by (cases "status current") auto
      with v new assms(4) show ?thesis
        by (simp add: eq getTaskById_def store_get_put)
    qed
    from invalid valid show ?thesis
      by blast
  qed
  have unguarded: "fst ?r
              \<and> getTaskById (snd ?r) k = Some task
              \<and> (\<forall>k'. k' \<noteq> k \<longrightarrow> getTaskById (snd ?r) k' = getTaskById d k')
              \<and> timeLogs (snd ?r) = timeLogs d
              \<and> remainingHoursHistory (snd ?r) = remainingHoursHistory d"
    if "\<not> truthy_str (status task)"
  proof -
    from that have "?r = (True, d\<lparr>tasks := snd (store_put set_task_id (task_id task) task (tasks d))\<rparr>)"
      by (intro saveTask_edit_unguarded) simp
    with assms(1) show ?thesis
      by (simp add: getTaskById_def store_get_put)
  qed
  from guarded unguarded show ?thesis
    unfolding Let_def by blast
qed

theorem saveTask_status_change_witness:
  "getTaskById exDb 1 = Some exTask1
   \<and> saveTask exNow exDb (exTask1\<lparr>status := Some ''Completed''\<rparr>) True = (False, exDb)
   \<and> fst (saveTask exNow exDb (exTask1\<lparr>status := Some ''InProgress''\<rparr>) True)
   \<and> map_option statusHistory
        (getTaskById (snd (saveTask exNow exDb (exTask1\<lparr>status := Some ''InProgress''\<rparr>) True)) 1) =
       Some (Some [\<lparr>se_status = Some ''Ready'', se_timestamp = ''2024-01-01T09:00:00.000Z'',
                     se_note = ''Task created''\<rparr>,
                   \<lparr>se_status = Some ''Estimated'', se_timestamp = ''2024-01-02T09:00:00.000Z'',
                     se_note = ''Ready => Estimated''\<rparr>,
                   \<lparr>se_status = Some ''InProgress'', se_timestamp = ''2024-01-10T12:30:00.000Z'',
                     se_note = ''Estimated => InProgress''\<rparr>])
   \<and> getTaskById (snd (saveTask exNow exDb (exTask1\<lparr>status := Some []\<rparr>) True)) 1
       = Some (exTask1\<lparr>status := Some []\<rparr>)"
proof -
  have g: "getTaskById exDb 1 = Some exTask1"
    by (simp add: getTaskById_def store_get_def exDb_def)
  have n: "(1::nat) \<noteq> 0" by simp
  have bad: "truthy_str (status (exTask1\<lparr>status := Some ''Completed''\<rparr>))
      \<and> \<not> isValidStatusTransition (status exTask1) (status (exTask1\<lparr>status := Some ''Completed''\<rparr>))"
    by (simp add: exTask1_def stateTransitions_def)
  have good: "truthy_str (status (exTask1\<lparr>status := Some ''InProgress''\<rparr>))
      \<and> isValidStatusTransition (status exTask1) (status (exTask1\<lparr>status := Some ''InProgress''\<rparr>))"
    by (simp add: exTask1_def stateTransitions_def)
  have cleared: "\<not> truthy_str (status (exTask1\<lparr>status := Some []\<rparr>))"
    by simp
  have "saveTask exNow exDb (exTask1\<lparr>status := Some ''Completed''\<rparr>) True = (False, exDb)"
    using saveTask_status_change [of "exTask1\<lparr>status := Some ''Completed''\<rparr>" 1 exDb exTask1 exNow]
      g bad
    unfolding Let_def by (simp add: exTask1_def)
  moreover
  have "fst (saveTask exNow exDb (exTask1\<lparr>status := Some ''InProgress''\<rparr>) True)
      \<and> (\<exists>oldStatus newStatus. status exTask1 = Some oldStatus
           \<and> status (exTask1\<lparr>status := Some ''InProgress''\<rparr>) = Some newStatus
           \<and> getTaskById (snd (saveTask exNow exDb (exTask1\<lparr>status := Some ''InProgress''\<rparr>) True)) 1 =
               Some (exTask1\<lparr>status := Some ''InProgress'',
                       statusHistory :=
                            Some (historyOf exNow exTask1 @
                                    [\<lparr>se_status = Some newStatus, se_timestamp = exNow,
                                      se_note = oldStatus @ '' => '' @ newStatus\<rparr>]),
                          createdAt := Some (str_or (createdAt exTask1) exNow)\<rparr>))"
    using saveTask_status_change [of "exTask1\<lparr>status := Some ''InProgress''\<rparr>" 1 exDb exTask1 exNow]
      g good
    unfolding Let_def by (simp add: exTask1_def)
  moreover
  have "getTaskById (snd (saveTask exNow exDb (exTask1\<lparr>status := Some []\<rparr>) True)) 1
       = Some (exTask1\<lparr>status := Some []\<rparr>)"
    using saveTask_status_change [of "exTask1\<lparr>status := Some []\<rparr>" 1 exDb exTask1 exNow]
      g cleared
    unfolding Let_def by (simp add: exTask1_def)
  ultimately show ?thesis
    using g by (auto simp: exTask1_def historyOf_def exNow_def)
qed

text \<open>
  C5 as the specification states it fails: a new task that arrives with its own
  \<^verbatim>\<open>remainingHours\<close> (the quick-add form always sends one, 0 by default) keeps it, so with
  an estimate of 10 and \<^verbatim>\<open>remainingHours\<close> 0 the stored task has 0 remaining hours and no
  ledger entry is written.
\<close>

theorem saveTask_supplied_remainingHours_counterexample:
  "estimate (exNewTask\<lparr>remainingHours := Some 0\<rparr>) = Some 10
   \<and> fst (saveTask exNow emptyDb (exNewTask\<lparr>remainingHours := Some 0\<rparr>) False)
   \<and> map_option remainingHours
        (getTaskById (snd (saveTask exNow emptyDb (exNewTask\<lparr>remainingHours := Some 0\<rparr>) False)) 1)
       = Some (Some 0)
   \<and> getRemainingHoursHistory (snd (saveTask exNow emptyDb (exNewTask\<lparr>remainingHours := Some 0\<rparr>) False)) 1
       = []"
  by (simp add: saveTask_def initNewTask_def writeTask_def store_put_def store_get_def
      getTaskById_def getRemainingHoursHistory_def store_getAllFromIndex_def set_task_id_def
      emptyDb_def emptyStore_def exNewTask_def)

text \<open>
  The status of a new task that has none: the first history entry says \<^verbatim>\<open>Ready\<close>, the
  \<^verbatim>\<open>status\<close> property of the stored task stays absent.
\<close>

lemma saveTask_absent_status:
  "map_option status (getTaskById (snd (saveTask exNow emptyDb exNewTask False)) 1) = Some None
   \<and> map_option (map_option (map se_status) \<circ> statusHistory)
        (getTaskById (snd (saveTask exNow emptyDb exNewTask False)) 1) = Some (Some [Some ''Ready''])"
  by (simp add: saveTask_def initNewTask_def writeTask_def store_put_def store_get_def store_add_def
      getTaskById_def set_task_id_def set_rh_id_def emptyDb_def emptyStore_def exNewTask_def)

text \<open>
  C5, amended. A call \<^verbatim>\<open>saveTask(task, false)\<close> that fails leaves the database as it was.
  In a well-formed database, for a task without the temporary property
  \<^verbatim>\<open>_initialRemainingHoursEntry\<close>, the call succeeds and stores the task under its id (the
  next generated key when it has none) with a history of one event, whose status is the
  task's status, or \<^verbatim>\<open>Ready\<close> when the task has none, and with \<^verbatim>\<open>remainingHours\<close> equal to
  the value the task came with or, when it came with none, to the estimate (0 when the
  estimate is absent or 0). When that value is greater than 0, exactly one entry with note
  \<^verbatim>\<open>"Initial estimate"\<close>, that value and the task's id is appended to the ledger in the same
  step; otherwise the ledger is unchanged.
\<close>

theorem saveTask_new_task:
  "(let result = saveTask now d task False;
        key = (case task_id task of None \<Rightarrow> nextKey (tasks d) | Some i \<Rightarrow> i);
        remaining = (case remainingHours task of None \<Rightarrow> num_or (estimate task) 0 | Some r \<Rightarrow> r);
        entryKey = nextKey (remainingHoursHistory d)
    in (\<not> fst result \<longrightarrow> snd result = d)
     \<and> (db_ok d \<and> initialRemainingHoursEntry task = None \<longrightarrow>
          fst result
        \<and> (\<exists>stored. getTaskById (snd result) key = Some stored
             \<and> remainingHours stored = Some remaining
             \<and> statusHistory stored =
                 Some [\<lparr>se_status = Some (str_or (status task) ''Ready''), se_timestamp = now,
                        se_note = ''Task created''\<rparr>]
             \<and> createdAt stored = Some now)
        \<and> (\<forall>k'. k' \<noteq> key \<longrightarrow> getTaskById (snd result) k' = getTaskById d k')
        \<and> (0 < remaining \<longrightarrow>
             rows (remainingHoursHistory (snd result)) =
               rows (remainingHoursHistory d) @
               [(entryKey, \<lparr>rh_id = Some entryKey, rh_taskId = Some key, rh_remainingHours = remaining,
                            rh_previousRemainingHours = None, rh_timestamp = now,
                            rh_note = ''Initial estimate''\<rparr>)])
        \<and> (\<not> 0 < remaining \<longrightarrow> remainingHoursHistory (snd result) = remainingHoursHistory d)
        \<and> timeLogs (snd result) = timeLogs d))"
proof -
  let ?r = "saveTask now d task False"
  let ?key = "case task_id task of None \<Rightarrow> nextKey (tasks d) | Some i \<Rightarrow> i"
  let ?remaining = "case remainingHours task of None \<Rightarrow> num_or (estimate task) 0 | Some r \<Rightarrow> r"
  have failed: "\<not> fst ?r \<longrightarrow> snd ?r = d"
    by (simp add: saveTask_def writeTask_def Let_def split: prod.splits option.splits)
  have ok: "fst ?r
        \<and> (\<exists>stored. getTaskById (snd ?r) ?key = Some stored
             \<and> remainingHours stored = Some ?remaining
             \<and> statusHistory stored =
                 Some [\<lparr>se_status = Some (str_or (status task) ''Ready''), se_timestamp = now,
                        se_note = ''Task created''\<rparr>]
             \<and> createdAt stored = Some now)
        \<and> (\<forall>k'. k' \<noteq> ?key \<longrightarrow> getTaskById (snd ?r) k' = getTaskById d k')
        \<and> (0 < ?remaining \<longrightarrow>
             rows (remainingHoursHistory (snd ?r)) =
               rows (remainingHoursHistory d) @
               [(nextKey (remainingHoursHistory d),
                 \<lparr>rh_id = Some (nextKey (remainingHoursHistory d)), rh_taskId = Some ?key,
                  rh_remainingHours = ?remaining, rh_previousRemainingHours = None, rh_timestamp = now,
                  rh_note = ''Initial estimate''\<rparr>)])
        \<and> (\<not> 0 < ?remaining \<longrightarrow> remainingHoursHistory (snd ?r) = remainingHoursHistory d)
        \<and> timeLogs (snd ?r) = timeLogs d"
    if "db_ok d" "initialRemainingHoursEntry task = None"
  proof -
    from that(1) have h: "store_ok rh_id (remainingHoursHistory d)"
      by (simp add: db_ok_def)
    show ?thesis
      unfolding saveTask_new [OF h that(2)] Let_def
      by (cases "task_id task")
        (simp_all add: getTaskById_def store_get_put set_task_id_def)
  qed
  from failed ok show ?thesis
    unfolding Let_def by blast
qed

theorem saveTask_new_task_witness:
  "db_ok emptyDb \<and> initialRemainingHoursEntry exNewTask = None
   \<and> fst (saveTask exNow emptyDb exNewTask False)
   \<and> (\<exists>stored. getTaskById (snd (saveTask exNow emptyDb exNewTask False)) 1 = Some stored
         \<and> remainingHours stored = Some 10
         \<and> statusHistory stored =
             Some [\<lparr>se_status = Some ''Ready'', se_timestamp = exNow, se_note = ''Task created''\<rparr>])
   \<and> getRemainingHoursHistory (snd (saveTask exNow emptyDb exNewTask False)) 1 =
       [\<lparr>rh_id = Some 1, rh_taskId = Some 1, rh_remainingHours = 10,
         rh_previousRemainingHours = None, rh_timestamp = exNow, rh_note = ''Initial estimate''\<rparr>]"
proof -
  let ?r = "saveTask exNow emptyDb exNewTask False"
  have ok: "db_ok emptyDb"
    by (simp add: db_ok_def store_ok_def emptyDb_def emptyStore_def)
  have ini: "initialRemainingHoursEntry exNewTask = None"
    by (simp add: exNewTask_def)
  have key: "(case task_id exNewTask of None \<Rightarrow> nextKey (tasks emptyDb) | Some i \<Rightarrow> i) = 1"
    by (simp add: exNewTask_def emptyDb_def emptyStore_def)
  have rem: "(case remainingHours exNewTask of None \<Rightarrow> num_or (estimate exNewTask) 0 | Some r \<Rightarrow> r) = 10"
    by (simp add: exNewTask_def)
  have st: "str_or (status exNewTask) ''Ready'' = ''Ready''"
    by (simp add: exNewTask_def)
  have ek: "nextKey (remainingHoursHistory emptyDb) = 1" and er: "rows (remainingHoursHistory emptyDb) = []"
    by (simp_all add: emptyDb_def emptyStore_def)
  have pos: "(0::rat) < 10"
    by simp
  from saveTask_new_task [of exNow emptyDb exNewTask] ok ini pos
  have a: "fst ?r"
    and b: "\<exists>stored. getTaskById (snd ?r) 1 = Some stored
         \<and> remainingHours stored = Some 10
         \<and> statusHistory stored =
             Some [\<lparr>se_status = Some ''Ready'', se_timestamp = exNow, se_note = ''Task created''\<rparr>]
         \<and> createdAt stored = Some exNow"
    and c: "rows (remainingHoursHistory (snd ?r)) =
               [] @ [(1, \<lparr>rh_id = Some 1, rh_taskId = Some 1, rh_remainingHours = 10,
                            rh_previousRemainingHours = None, rh_timestamp = exNow,
                            rh_note = ''Initial estimate''\<rparr>)]"
    unfolding Let_def key rem st ek er by blast+
  from c have "getRemainingHoursHistory (snd ?r) 1 =
       [\<lparr>rh_id = Some 1, rh_taskId = Some 1, rh_remainingHours = 10,
         rh_previousRemainingHours = None, rh_timestamp = exNow, rh_note = ''Initial estimate''\<rparr>]"
    by (simp add: getRemainingHoursHistory_def store_getAllFromIndex_def)
  with a b ok ini show ?thesis
    by blast
qed


section \<open>The status history under every operation\<close>

lemma historyOf_agree:
  assumes "statusHistory t' = statusHistory t" and "status t' = status t" and "createdAt t' = createdAt t"
  shows "historyOf now t' = historyOf now t" and "historyInvariant t' = historyInvariant t"
  using assms by (simp_all add: historyOf_def historyInvariant_def split: option.splits)

lemma historyInvariant_snoc:
  assumes "historyInvariant t" and "\<forall>x \<in> set (historyOf now t). se_timestamp x \<le> se_timestamp e"
    and "statusHistory t' = Some (historyOf now t @ [e])"
  shows "historyInvariant t'"
proof -
  from assms(1) obtain h where h: "statusHistory t = Some h" "h \<noteq> []" "sorted (map se_timestamp h)"
    by (auto simp: historyInvariant_def split: option.splits)
  then have "historyOf now t = h"
    by (simp add: historyOf_def)
  with assms(2,3) h show ?thesis
    by (simp add: historyInvariant_def sorted_append)
qed

lemma clockAhead_stored:
  assumes "clockAhead now d" and "getTaskById d k = Some t"
  shows "\<forall>x \<in> set (historyOf now t). se_timestamp x \<le> now"
proof -
  from assms(2) have "(k, t) \<in> set (rows (tasks d))"
    by (simp add: getTaskById_def store_get_def map_of_SomeD)
  with assms(1) show ?thesis
    by (force simp: clockAhead_def list_all_iff)
qed

lemma initNewTask_history:
  "statusHistory (initNewTask now task) =
     Some [\<lparr>se_status = Some (str_or (status task) ''Ready''), se_timestamp = now,
            se_note = ''Task created''\<rparr>]"
  by (simp add: initNewTask_def Let_def split: option.split)

lemma initNewTask_id: "task_id (initNewTask now task) = task_id task"
  by (simp add: initNewTask_def Let_def split: option.split)

lemma saveTask_create_tasks:
  "saveTask now d task False = (False, d)
   \<or> (fst (saveTask now d task False)
      \<and> tasks (snd (saveTask now d task False)) =
          snd (store_put set_task_id (task_id task) (initNewTask now task) (tasks d)))"
  by (auto simp: saveTask_def writeTask_def initNewTask_id Let_def split: prod.splits option.splits)

lemma updateRemainingHours_tasks:
  assumes "store_ok task_id (tasks d)"
  shows "updateRemainingHours numToString now d taskId newValue note = (False, d)
   \<or> (\<exists>task. getTaskById d taskId = Some task
        \<and> tasks (snd (updateRemainingHours numToString now d taskId newValue note)) =
            snd (store_put set_task_id (Some taskId) (task\<lparr>remainingHours := Some newValue\<rparr>) (tasks d)))"
proof (cases "store_get (tasks d) taskId")
  case None
  then show ?thesis by (simp add: updateRemainingHours_def)
next
  case (Some task)
  with assms have "task_id task = Some taskId"
    by (rule store_get_id)
  with Some show ?thesis
    by (simp add: updateRemainingHours_def getTaskById_def Let_def split: prod.splits option.splits)
qed

lemma deleteTask_tasks:
  "deleteTask d taskId = (False, d)
   \<or> tasks (snd (deleteTask d taskId)) = store_delete taskId (tasks d)"
  by (simp add: deleteTask_def Let_def split: option.splits)

text \<open>
  What one operation can do to the history of a task that is stored before and after it:
  keep it, or (an edit of that task) store the history it read, with or without one new
  event stamped \<open>now\<close>.
\<close>

lemma perform_history:
  assumes ok: "db_ok d" and wf: "wellFormedOp d op"
    and before: "getTaskById d k = Some t"
    and after: "getTaskById (snd (perform numToString now d op)) k = Some t'"
  shows "(statusHistory t' = statusHistory t \<and> status t' = status t \<and> createdAt t' = createdAt t)
       \<or> statusHistory t' = Some (historyOf now t)
       \<or> (\<exists>e. se_timestamp e = now \<and> statusHistory t' = Some (historyOf now t @ [e]))"
proof (cases op)
  case (SaveTask task isEdit)
  show ?thesis
  proof (cases isEdit)
    case True
    with wf SaveTask obtain j current where j: "task_id task = Some j" "j \<noteq> 0"
      "getTaskById d j = Some current" "truthy_str (status task)"
      by (cases "task_id task") auto
    note eq = saveTask_edit_stored [OF j, of now]
    show ?thesis
    proof (cases "j = k")
      case False
      with after before SaveTask True have "t' = t"
        by (simp add: eq getTaskById_def store_get_put split: if_splits)
      then show ?thesis by simp
    next
      case same: True
      with j before have cur: "current = t" by simp
      from after SaveTask True same before show ?thesis
        unfolding cur by (auto simp: eq cur getTaskById_def store_get_put split: if_splits)
    qed
  next
    case False
    with wf SaveTask have noid: "task_id task = None" by simp
    from ok have "store_ok task_id (tasks d)"
      by (simp add: db_ok_def)
    then have "store_get (tasks d) (nextKey (tasks d)) = None"
      by (rule store_get_fresh)
    with before have "k \<noteq> nextKey (tasks d)"
      by (auto simp: getTaskById_def)
    with saveTask_create_tasks [of now d task] after before SaveTask False noid have "t' = t"
      by (auto simp: getTaskById_def store_get_put)
    then show ?thesis by simp
  qed
next
  case (DeleteTask taskId)
  with deleteTask_tasks [of d taskId] after before have "t' = t"
    by (auto simp: getTaskById_def store_get_delete split: if_splits)
  then show ?thesis by simp
next
  case (UpdateRemainingHours taskId newValue msg)
  from ok have "store_ok task_id (tasks d)" by (simp add: db_ok_def)
  from updateRemainingHours_tasks [OF this, of numToString now taskId newValue msg]
    after before UpdateRemainingHours
  show ?thesis
    by (auto simp: getTaskById_def store_get_put split: if_splits)
next
  case (SaveTimeLog timeLog)
  have "tasks (snd (saveTimeLog now d timeLog)) = tasks d"
    by (simp add: saveTimeLog_def Let_def split: option.splits prod.splits)
  with after before SaveTimeLog have "t' = t"
    by (simp add: getTaskById_def)
  then show ?thesis by simp
next
  case (DeleteTimeLog logId)
  with after before have "t' = t"
    by (simp add: getTaskById_def deleteTimeLog_def)
  then show ?thesis by simp
qed

lemma initNewTask_status: "status (initNewTask now task) = status task"
  by (simp add: initNewTask_def Let_def split: option.split)

text \<open>
  C4 as the specification states it fails. An edit that carries no status is written as
  it comes: here it replaces a task whose history was in order by one without a history.
  An edit under an id that is not stored is written as it comes too, here without a
  history. A new task that carries the id of a stored task takes its place with a fresh
  history of one entry. The code stamps the current time without looking at the last
  entry: with the clock set back, a valid edit stores a history whose timestamps
  decrease. And a task created without a status is stored without one, while the first
  entry of its history says \<^verbatim>\<open>Ready\<close>.
\<close>

theorem statusHistory_lost_counterexample:
  "getTaskById exDb 1 = Some exTask1 \<and> historyInvariant exTask1
   \<and> fst (saveTask exNow exDb (exTask1\<lparr>status := None, statusHistory := None\<rparr>) True)
   \<and> map_option historyInvariant
        (getTaskById (snd (saveTask exNow exDb (exTask1\<lparr>status := None, statusHistory := None\<rparr>) True)) 1)
       = Some False
   \<and> fst (saveTask ''2023-06-01T00:00:00.000Z'' exDb (exTask1\<lparr>status := Some ''InProgress''\<rparr>) True)
   \<and> map_option historyInvariant
        (getTaskById (snd (saveTask ''2023-06-01T00:00:00.000Z'' exDb
                             (exTask1\<lparr>status := Some ''InProgress''\<rparr>) True)) 1)
       = Some False
   \<and> fst (saveTask exNow exDb (exTask2\<lparr>task_id := Some 9\<rparr>) True)
   \<and> map_option statusHistory (getTaskById (snd (saveTask exNow exDb (exTask2\<lparr>task_id := Some 9\<rparr>) True)) 9)
       = Some None
   \<and> map_option length (statusHistory exTask1) = Some 2
   \<and> fst (saveTask exNow exDb (exNewTask\<lparr>task_id := Some 1\<rparr>) False)
   \<and> map_option (map_option length \<circ> statusHistory)
        (getTaskById (snd (saveTask exNow exDb (exNewTask\<lparr>task_id := Some 1\<rparr>) False)) 1)
       = Some (Some 1)
   \<and> fst (saveTask exNow emptyDb exNewTask False)
   \<and> map_option status (getTaskById (snd (saveTask exNow emptyDb exNewTask False)) 1) = Some None
   \<and> map_option (map_option (map se_status) \<circ> statusHistory)
        (getTaskById (snd (saveTask exNow emptyDb exNewTask False)) 1) = Some (Some [Some ''Ready''])"
proof -
  have unknown: "fst (saveTask exNow exDb (exTask2\<lparr>task_id := Some 9\<rparr>) True)
     \<and> map_option statusHistory (getTaskById (snd (saveTask exNow exDb (exTask2\<lparr>task_id := Some 9\<rparr>) True)) 9)
       = Some None"
    by (simp add: saveTask_def applyStatusEdit_def writeTask_def getTaskById_def store_get_def
        store_put_def exDb_def exTask1_def exTask2_def)
  have replaced: "map_option length (statusHistory exTask1) = Some 2
     \<and> fst (saveTask exNow exDb (exNewTask\<lparr>task_id := Some 1\<rparr>) False)
     \<and> map_option (map_option length \<circ> statusHistory)
        (getTaskById (snd (saveTask exNow exDb (exNewTask\<lparr>task_id := Some 1\<rparr>) False)) 1)
       = Some (Some 1)"
    by (simp add: saveTask_def initNewTask_def writeTask_def getTaskById_def store_get_def
        store_put_def store_add_def set_rh_id_def exDb_def exTask1_def exTask2_def exNewTask_def
        exEntry1_def exEntry2_def)
  have g: "getTaskById exDb 1 = Some exTask1"
    by (simp add: getTaskById_def store_get_def exDb_def)
  have inv: "historyInvariant exTask1"
    by (simp add: historyInvariant_def exTask1_def)
  have cleared: "fst (saveTask exNow exDb (exTask1\<lparr>status := None, statusHistory := None\<rparr>) True)
     \<and> map_option historyInvariant
        (getTaskById (snd (saveTask exNow exDb (exTask1\<lparr>status := None, statusHistory := None\<rparr>) True)) 1)
       = Some False"
    by (simp add: saveTask_def applyStatusEdit_def writeTask_def getTaskById_def store_get_def
        store_put_def historyInvariant_def exDb_def exTask1_def exTask2_def)
  have setback: "fst (saveTask ''2023-06-01T00:00:00.000Z'' exDb (exTask1\<lparr>status := Some ''InProgress''\<rparr>) True)
     \<and> map_option historyInvariant
        (getTaskById (snd (saveTask ''2023-06-01T00:00:00.000Z'' exDb
                             (exTask1\<lparr>status := Some ''InProgress''\<rparr>) True)) 1)
       = Some False"
    by (simp add: saveTask_def applyStatusEdit_def writeTask_def getTaskById_def store_get_def
        store_put_def historyInvariant_def stateTransitions_def exDb_def exTask1_def exTask2_def)
  have created: "fst (saveTask exNow emptyDb exNewTask False)"
    by (simp add: saveTask_def initNewTask_def writeTask_def store_put_def store_get_def store_add_def
        set_task_id_def set_rh_id_def emptyDb_def emptyStore_def exNewTask_def)
  from g inv cleared unknown replaced setback created saveTask_absent_status show ?thesis
    by (intro conjI) simp_all
qed

text \<open>
  C4, amended. Let the database be well formed, the clock not behind any stored
  timestamp, and the operation one the user interface makes: a new task has no id yet, an
  edit carries a non-empty status and the id of a stored task. Then, for every operation:
  \<^item> a task stored before and after it has its old history (for a task without one: the
    single entry \<^verbatim>\<open>saveTask\<close> makes up for it) as a prefix of its new history, so the
    history is only appended to; and if its history was non-empty with non-decreasing
    timestamps, it still is;
  \<^item> a task created by \<^verbatim>\<open>saveTask\<close> is stored with a history of exactly one event, stamped
    with the current time; when the task was created with a status, this is the status
    of the event and of the stored task;
  \<^item> after a successful edit of a stored task without history, the task's history is
    non-empty with non-decreasing timestamps and starts with the stored status, stamped
    with the task's \<^verbatim>\<open>createdAt\<close>, or the current time when that is missing.
\<close>

theorem statusHistory_invariant:
  assumes "db_ok d" and "wellFormedOp d op" and "clockAhead now d"
  shows "(let result = perform numToString now d op; d' = snd result
          in (\<forall>k t t'. getTaskById d k = Some t \<and> getTaskById d' k = Some t' \<longrightarrow>
                (\<exists>appended. historyOf now t' = historyOf now t @ appended)
              \<and> (historyInvariant t \<longrightarrow> historyInvariant t'))
           \<and> (\<forall>task. op = SaveTask task False \<and> fst result \<longrightarrow>
                (\<exists>t' e. getTaskById d' (nextKey (tasks d)) = Some t'
                   \<and> statusHistory t' = Some [e] \<and> se_timestamp e = now
                   \<and> (truthy_str (status task) \<longrightarrow> se_status e = status t' \<and> status t' = status task)
                   \<and> historyInvariant t'))
           \<and> (\<forall>task k current. op = SaveTask task True \<and> fst result \<and> task_id task = Some k
                  \<and> getTaskById d k = Some current \<and> statusHistory current = None \<longrightarrow>
                (\<exists>t' rest. getTaskById d' k = Some t'
                   \<and> statusHistory t' =
                       Some (\<lparr>se_status = status current,
                              se_timestamp = str_or (createdAt current) now,
                              se_note = ''Legacy task - initial status''\<rparr> # rest)
                   \<and> historyInvariant t')))"
proof -
  let ?r = "perform numToString now d op"
  have stored: "(\<exists>appended. historyOf now t' = historyOf now t @ appended)
              \<and> (historyInvariant t \<longrightarrow> historyInvariant t')"
    if before: "getTaskById d k = Some t" and after: "getTaskById (snd ?r) k = Some t'" for k t t'
  proof -
    from perform_history [OF assms(1,2) before after]
    consider (kept) "statusHistory t' = statusHistory t" "status t' = status t" "createdAt t' = createdAt t"
      | (read) "statusHistory t' = Some (historyOf now t)"
      | (extended) e where "se_timestamp e = now" "statusHistory t' = Some (historyOf now t @ [e])"
      by blast
    then show ?thesis
    proof cases
      case kept
      then show ?thesis
        using historyOf_agree(1) [of t' t now] historyOf_agree(2) [of t' t] by simp
    next
      case read
      then have "historyOf now t' = historyOf now t @ []"
        by (simp add: historyOf_def)
      moreover have "historyInvariant t'" if "historyInvariant t"
        using that read by (auto simp: historyInvariant_def historyOf_def split: option.splits)
      ultimately show ?thesis by blast
    next
      case extended
      then have "historyOf now t' = historyOf now t @ [e]"
        by (simp add: historyOf_def)
      moreover have "historyInvariant t'" if "historyInvariant t"
        using that clockAhead_stored [OF assms(3) before] extended
        by (intro historyInvariant_snoc [of t now e t']) simp_all
      ultimately show ?thesis by blast
    qed
  qed
  have created: "\<exists>t' e. getTaskById (snd ?r) (nextKey (tasks d)) = Some t'
                   \<and> statusHistory t' = Some [e] \<and> se_timestamp e = now
                   \<and> (truthy_str (status task) \<longrightarrow> se_status e = status t' \<and> status t' = status task)
                   \<and> historyInvariant t'"
    if op: "op = SaveTask task False" and succ: "fst ?r" for task
  proof -
    from assms(2) op have noid: "task_id task = None" by simp
    from saveTask_create_tasks [of now d task] op succ
    have "tasks (snd ?r) = snd (store_put set_task_id (task_id task) (initNewTask now task) (tasks d))"
      by auto
    with noid have "getTaskById (snd ?r) (nextKey (tasks d)) =
        Some (set_task_id (nextKey (tasks d)) (initNewTask now task))"
      by (simp add: getTaskById_def store_get_put)
    moreover have "statusHistory (set_task_id j (initNewTask now task)) =
        Some [\<lparr>se_status = Some (str_or (status task) ''Ready''), se_timestamp = now,
               se_note = ''Task created''\<rparr>]" for j
      by (simp add: set_task_id_def initNewTask_history)
    moreover have "status (set_task_id j (initNewTask now task)) = status task" for j
      by (simp add: set_task_id_def initNewTask_status)
    moreover have "Some (str_or (status task) ''Ready'') = status task" if "truthy_str (status task)"
      using that by (cases "status task") auto
    ultimately show ?thesis
      by (simp add: historyInvariant_def)
  qed
  have normalized: "\<exists>t' rest. getTaskById (snd ?r) k = Some t'
                   \<and> statusHistory t' =
                       Some (\<lparr>se_status = status current,
                              se_timestamp = str_or (createdAt current) now,
                              se_note = ''Legacy task - initial status''\<rparr> # rest)
                   \<and> historyInvariant t'"
    if op: "op = SaveTask task True" and succ: "fst ?r" and id: "task_id task = Some k"
      and cur: "getTaskById d k = Some current" and legacy: "statusHistory current = None"
    for task k current
  proof -
    from assms(2) op id have "k \<noteq> 0" "truthy_str (status task)"
      by simp_all
    note eq = saveTask_edit_stored [OF id this(1) cur this(2), of now]
    let ?first = "\<lparr>se_status = status current, se_timestamp = str_or (createdAt current) now,
                    se_note = ''Legacy task - initial status''\<rparr>"
    from legacy have h: "historyOf now current = [?first]"
      by (simp add: historyOf_def)
    from clockAhead_stored [OF assms(3) cur] h have le: "str_or (createdAt current) now \<le> now"
      by simp
    from succ op obtain t' where t': "getTaskById (snd ?r) k = Some t'"
      "statusHistory t' = Some [?first] \<or>
       (\<exists>e. se_timestamp e = now \<and> statusHistory t' = Some [?first, e])"
      by (auto simp: eq h getTaskById_def store_get_put split: if_splits)
    from t'(2) le have "historyInvariant t'"
      by (auto simp: historyInvariant_def)
    with t' show ?thesis by auto
  qed
  from stored created normalized show ?thesis
    unfolding Let_def by blast
qed

theorem statusHistory_invariant_witness:
  "db_ok exDb \<and> clockAhead exNow exDb
   \<and> wellFormedOp exDb (SaveTask (exTask2\<lparr>status := Some ''InProgress''\<rparr>) True)
   \<and> fst (perform exNumToString exNow exDb (SaveTask (exTask2\<lparr>status := Some ''InProgress''\<rparr>) True))
   \<and> (\<exists>t' rest.
        getTaskById (snd (perform exNumToString exNow exDb
                            (SaveTask (exTask2\<lparr>status := Some ''InProgress''\<rparr>) True))) 2 = Some t'
        \<and> statusHistory t' =
            Some (\<lparr>se_status = Some ''Ready'', se_timestamp = ''2023-12-01T08:00:00.000Z'',
                   se_note = ''Legacy task - initial status''\<rparr> # rest)
        \<and> historyInvariant t')"
proof -
  let ?op = "SaveTask (exTask2\<lparr>status := Some ''InProgress''\<rparr>) True"
  have clock: "clockAhead exNow exDb"
    by (simp add: clockAhead_def historyOf_def exNow_def exDb_def exTask1_def exTask2_def)
  have wf: "wellFormedOp exDb ?op"
    by (simp add: getTaskById_def store_get_def exDb_def exTask2_def)
  have g: "getTaskById exDb 2 = Some exTask2"
    by (simp add: getTaskById_def store_get_def exDb_def)
  have succ: "fst (perform exNumToString exNow exDb ?op)"
    using saveTask_edit_stored [of "exTask2\<lparr>status := Some ''InProgress''\<rparr>" 2 exDb exTask2 exNow] g
    by (simp add: exTask2_def stateTransitions_def)
  have facts: "?op = SaveTask (exTask2\<lparr>status := Some ''InProgress''\<rparr>) True
      \<and> fst (perform exNumToString exNow exDb ?op)
      \<and> task_id (exTask2\<lparr>status := Some ''InProgress''\<rparr>) = Some 2
      \<and> getTaskById exDb 2 = Some exTask2 \<and> statusHistory exTask2 = None"
    using succ g by (simp add: exTask2_def)
  have first: "\<lparr>se_status = status exTask2, se_timestamp = str_or (createdAt exTask2) exNow,
                se_note = ''Legacy task - initial status''\<rparr>
             = \<lparr>se_status = Some ''Ready'', se_timestamp = ''2023-12-01T08:00:00.000Z'',
                se_note = ''Legacy task - initial status''\<rparr>"
    by (simp add: exTask2_def)
  from statusHistory_invariant [OF exDb_ok wf clock, of exNumToString] facts
  have "\<exists>t' rest.
        getTaskById (snd (perform exNumToString exNow exDb ?op)) 2 = Some t'
        \<and> statusHistory t' =
            Some (\<lparr>se_status = status exTask2, se_timestamp = str_or (createdAt exTask2) exNow,
                   se_note = ''Legacy task - initial status''\<rparr> # rest)
        \<and> historyInvariant t'"
    unfolding Let_def by blast
  with exDb_ok clock wf succ show ?thesis
    unfolding first by blast
qed


section \<open>Properties of the category analysis\<close>

lemma split_at_nonempty: "split_at c s \<noteq> []"
  by (induction s) (auto split: list.splits)

lemma join_with_Cons: "join_with c ((x # p) # ps) = x # join_with c (p # ps)"
  by (cases ps) simp_all

lemma join_split_at: "join_with c (split_at c s) = s"
proof (induction s)
  case Nil
  show ?case by simp
next
  case (Cons x xs)
  obtain p ps where sp: "split_at c xs = p # ps"
    using split_at_nonempty [of c xs] by (cases "split_at c xs") auto
  with Cons show ?case
    by (simp add: join_with_Cons)
qed

lemma split_at_first:
  "c \<in> set s \<Longrightarrow>
   split_at c s = takeWhile (\<lambda>x. x \<noteq> c) s # split_at c (tl (dropWhile (\<lambda>x. x \<noteq> c) s))"
  by (induction s) (auto split: list.splits)

text \<open>A key with a dot is cut at its first dot; the item part keeps the later dots.\<close>

lemma parseCategoryKey_first_dot:
  assumes "CHR ''.'' \<in> set key"
  shows "parseCategoryKey (Some key) =
           (Some (takeWhile (\<lambda>x. x \<noteq> CHR ''.'') key), Some (tl (dropWhile (\<lambda>x. x \<noteq> CHR ''.'') key)))"
proof -
  from assms have "key \<noteq> []" by auto
  with assms show ?thesis
    by (simp add: split_at_first join_split_at)
qed

lemma sumHours_snoc: "sumHours (logs @ [l]) = js_add (sumHours logs) (toNumber (hours l))"
  by (simp add: sumHours_def)

lemma sumHours_Nil: "sumHours [] = Num 0"
  by (simp add: sumHours_def)

text \<open>
  No member of \<^verbatim>\<open>Object.prototype\<close> has a dot in its name, and the key of a bucket has
  one: \<^verbatim>\<open>categoryStats\<close> never meets an inherited key.
\<close>

lemma objectPrototypeKeys_no_dot: "key \<in> set objectPrototypeKeys \<Longrightarrow> CHR ''.'' \<notin> set key"
  by (auto simp: objectPrototypeKeys_def)

lemma inBucket_not_inherited: "inBucket key l \<Longrightarrow> key \<notin> set objectPrototypeKeys"
proof
  assume b: "inBucket key l" and "key \<in> set objectPrototypeKeys"
  then have "CHR ''.'' \<notin> set key"
    by (simp add: objectPrototypeKeys_no_dot)
  then have "parseCategoryKey (Some key) = (None, None)"
    by simp
  with b show False
    by (simp add: inBucket_def)
qed

text \<open>One turn of the loop that does not throw, seen at the two totals and at one key of \<^verbatim>\<open>categoryStats\<close>.\<close>

lemma analyzeLog_total:
  assumes "analyzeLog dir st l = Inr st'"
  shows "st_totalCategorizedHours st' =
     (if truthy_str (categoryValueOf l)
      then js_add (st_totalCategorizedHours st) (toNumber (hours l))
      else st_totalCategorizedHours st)"
  using assms
  by (auto simp: analyzeLog_def categoryValueOf_def Let_def split: prod.splits if_splits sum.splits)

lemma analyzeLog_uncategorized:
  assumes "analyzeLog dir st l = Inr st'"
  shows "st_uncategorizedHours st' =
     (if truthy_str (categoryValueOf l)
      then st_uncategorizedHours st
      else js_add (st_uncategorizedHours st) (toNumber (hours l)))"
  using assms
  by (auto simp: analyzeLog_def categoryValueOf_def Let_def split: prod.splits if_splits sum.splits)

lemma addToCategory_at:
  assumes "key \<notin> set objectPrototypeKeys"
  shows "addToCategory dir key (str_of (fst (parseCategoryKey (Some key))))
           (str_of (snd (parseCategoryKey (Some key)))) h stats key' =
     (if key' = key
      then Some ((case stats key of Some e \<Rightarrow> e | None \<Rightarrow> bucketOf dir key [])
                 \<lparr>cs_hours := js_add (cs_hours (case stats key of Some e \<Rightarrow> e
                                                  | None \<Rightarrow> bucketOf dir key [])) h,
                   cs_logCount := cs_logCount (case stats key of Some e \<Rightarrow> e
                                               | None \<Rightarrow> bucketOf dir key []) + 1\<rparr>)
      else stats key')"
  using assms
  by (cases "stats key")
    (simp_all add: addToCategory_def getProperty_def Let_def bucketOf_def sumHours_Nil)

lemma analyzeLog_categoryStats:
  assumes "analyzeLog dir st l = Inr st'"
  shows "st_categoryStats st' key =
     (if inBucket key l
      then Some ((case st_categoryStats st key of Some e \<Rightarrow> e | None \<Rightarrow> bucketOf dir key [])
                 \<lparr>cs_hours := js_add (cs_hours (case st_categoryStats st key of Some e \<Rightarrow> e
                                                  | None \<Rightarrow> bucketOf dir key []))
                                      (toNumber (hours l)),
                   cs_logCount := cs_logCount (case st_categoryStats st key of Some e \<Rightarrow> e
                                               | None \<Rightarrow> bucketOf dir key []) + 1\<rparr>)
      else st_categoryStats st key)"
proof (cases "categoryValueOf l")
  case None
  with assms show ?thesis
    by (auto simp: analyzeLog_def inBucket_def categoryValueOf_def Let_def)
next
  case (Some v)
  obtain a b where p: "parseCategoryKey (Some v) = (a, b)"
    by (cases "parseCategoryKey (Some v)")
  show ?thesis
  proof (cases "v \<noteq> [] \<and> truthy_str a \<and> truthy_str b")
    case False
    have slugs: "\<not> (truthy_str a \<and> truthy_str b)"
    proof (cases "v = []")
      case True
      with p show ?thesis by auto
    next
      case False
      with \<open>\<not> (v \<noteq> [] \<and> truthy_str a \<and> truthy_str b)\<close> show ?thesis by simp
    qed
    with Some p have "\<not> inBucket key l"
      by (auto simp: inBucket_def simp del: parseCategoryKey.simps)
    moreover from assms Some p slugs have "st_categoryStats st' = st_categoryStats st"
      by (auto simp: analyzeLog_def categoryValueOf_def Let_def simp del: parseCategoryKey.simps
          split: if_splits)
    ultimately show ?thesis by simp
  next
    case True
    with Some p have b: "inBucket v l"
      by (simp add: inBucket_def del: parseCategoryKey.simps)
    then have ni: "v \<notin> set objectPrototypeKeys"
      by (rule inBucket_not_inherited)
    from True Some p assms
    have "st_categoryStats st' =
            addToCategory dir v (str_of (fst (parseCategoryKey (Some v))))
              (str_of (snd (parseCategoryKey (Some v)))) (toNumber (hours l)) (st_categoryStats st)"
      by (auto simp: analyzeLog_def categoryValueOf_def Let_def simp del: parseCategoryKey.simps
          split: sum.splits)
    then have "st_categoryStats st' key =
        (if key = v
         then Some ((case st_categoryStats st v of Some e \<Rightarrow> e | None \<Rightarrow> bucketOf dir v [])
                 \<lparr>cs_hours := js_add (cs_hours (case st_categoryStats st v of Some e \<Rightarrow> e
                                                  | None \<Rightarrow> bucketOf dir v []))
                                      (toNumber (hours l)),
                   cs_logCount := cs_logCount (case st_categoryStats st v of Some e \<Rightarrow> e
                                               | None \<Rightarrow> bucketOf dir v []) + 1\<rparr>)
         else st_categoryStats st key)"
      by (simp only: addToCategory_at [OF ni])
    moreover have "inBucket key l \<longleftrightarrow> key = v"
      using b Some by (auto simp: inBucket_def simp del: parseCategoryKey.simps)
    ultimately show ?thesis
      by auto
  qed
qed

text \<open>The loop does not throw when no log brings an inherited list slug.\<close>

lemma analyzeLog_returns:
  assumes "\<not> inheritedListSlug l"
  shows "\<exists>st'. analyzeLog dir st l = Inr st'"
proof (cases "truthy_str (categoryValueOf l)")
  case False
  then show ?thesis
    by (simp add: analyzeLog_def categoryValueOf_def Let_def)
next
  case True
  obtain a b where p: "parseCategoryKey (categoryValueOf l) = (a, b)"
    by (cases "parseCategoryKey (categoryValueOf l)")
  show ?thesis
  proof (cases "truthy_str a \<and> truthy_str b")
    case False
    with True p show ?thesis
      by (auto simp: analyzeLog_def categoryValueOf_def Let_def)
  next
    case slugs: True
    with assms p have "str_of a \<notin> set objectPrototypeKeys"
      by (simp add: inheritedListSlug_def)
    then have "\<exists>m. addToList dir v (str_of a) i h listStats = Inr m" for v i h listStats
      by (cases "listStats (str_of a)") (simp_all add: addToList_def getProperty_def Let_def)
    then obtain m where "addToList dir (str_of (categoryValueOf l)) (str_of a) (str_of b)
        (toNumber (hours l)) (st_categoryListStats st) = Inr m"
      by blast
    with True p slugs show ?thesis
      by (simp add: analyzeLog_def categoryValueOf_def Let_def)
  qed
qed

lemma analyzeLogs_returns:
  "list_all (\<lambda>l. \<not> inheritedListSlug l) logs \<Longrightarrow> \<exists>st'. analyzeLogs dir st logs = Inr st'"
proof (induction logs arbitrary: st)
  case Nil
  show ?case by simp
next
  case (Cons l logs)
  then obtain st1 where "analyzeLog dir st l = Inr st1"
    using analyzeLog_returns [of l dir st] by auto
  with Cons show ?case
    by simp
qed

lemma analyzeLogs_snoc:
  "analyzeLogs dir st (logs @ [l]) =
     (case analyzeLogs dir st logs of Inl e \<Rightarrow> Inl e | Inr st' \<Rightarrow> analyzeLog dir st' l)"
  by (induction logs arbitrary: st) (auto split: sum.splits)

lemma analyze_invariant:
  assumes "analyzeLogs dir
             \<lparr>st_categoryStats = Map.empty, st_categoryListStats = Map.empty,
              st_totalCategorizedHours = Num 0, st_uncategorizedHours = Num 0\<rparr> logs = Inr st"
  shows "st_totalCategorizedHours st = sumHours (filter (\<lambda>l. truthy_str (categoryValueOf l)) logs)
       \<and> st_uncategorizedHours st = sumHours (filter (\<lambda>l. \<not> truthy_str (categoryValueOf l)) logs)
       \<and> (\<forall>key. st_categoryStats st key =
                  (if filter (inBucket key) logs = [] then None
                   else Some (bucketOf dir key (filter (inBucket key) logs))))"
  using assms
proof (induction logs arbitrary: st rule: rev_induct)
  case Nil
  then show ?case
    by (auto simp: sumHours_Nil)
next
  case (snoc l logs)
  from snoc.prems obtain st0 where run: "analyzeLogs dir
             \<lparr>st_categoryStats = Map.empty, st_categoryListStats = Map.empty,
              st_totalCategorizedHours = Num 0, st_uncategorizedHours = Num 0\<rparr> logs = Inr st0"
    and step: "analyzeLog dir st0 l = Inr st"
    by (auto simp: analyzeLogs_snoc split: sum.splits)
  from snoc.IH [OF run]
  have t: "st_totalCategorizedHours st0 = sumHours (filter (\<lambda>l. truthy_str (categoryValueOf l)) logs)"
    and u: "st_uncategorizedHours st0 = sumHours (filter (\<lambda>l. \<not> truthy_str (categoryValueOf l)) logs)"
    and c: "\<And>key. st_categoryStats st0 key =
                  (if filter (inBucket key) logs = [] then None
                   else Some (bucketOf dir key (filter (inBucket key) logs)))"
    by simp_all
  have "st_totalCategorizedHours st =
          sumHours (filter (\<lambda>l. truthy_str (categoryValueOf l)) (logs @ [l]))"
    by (simp add: analyzeLog_total [OF step] t sumHours_snoc)
  moreover have "st_uncategorizedHours st =
          sumHours (filter (\<lambda>l. \<not> truthy_str (categoryValueOf l)) (logs @ [l]))"
    by (simp add: analyzeLog_uncategorized [OF step] u sumHours_snoc)
  moreover have "st_categoryStats st key =
                  (if filter (inBucket key) (logs @ [l]) = [] then None
                   else Some (bucketOf dir key (filter (inBucket key) (logs @ [l]))))" for key
    by (simp add: analyzeLog_categoryStats [OF step] c sumHours_snoc bucketOf_def)
  ultimately show ?case
    by blast
qed

text \<open>
  A list slug that names a member of \<^verbatim>\<open>Object.prototype\<close> ends the analysis with a
  TypeError; an item slug of that kind is left out of the list's categories.
\<close>

lemma analyze_inherited_list_slug:
  "analyzeCategoriesInTimeLogs dir [exLog1\<lparr>categoryKey := Some ''constructor.foo''\<rparr>] = Inl TypeError"
  by (simp add: analyzeCategoriesInTimeLogs_def analyzeLog_def addToList_def addToCategory_def
      getProperty_def objectPrototypeKeys_def or_else_def exLog1_def Let_def)

text \<open>
  C9 as the specification states it fails: a log whose category is \<^verbatim>\<open>'work'\<close>, a value
  without a dot that does not parse, adds its hour to the categorized total and nothing
  to the uncategorized hours.
\<close>

theorem analyze_unparseable_counterexample:
  "categoryValueOf exLog3 = Some ''work''
   \<and> parseCategoryKey (Some ''work'') = (None, None)
   \<and> hours exLog3 = Some 1
   \<and> (\<exists>r. analyzeCategoriesInTimeLogs (\<lambda>slug. None) [exLog3] = Inr r
         \<and> uncategorizedHours r = Num 0
         \<and> totalCategorizedHours r = Num 1)"
  by (simp add: analyzeCategoriesInTimeLogs_def analyzeLog_def categoryValueOf_def or_else_def
      exLog3_def)

text \<open>
  C9, amended. A category value (\<^verbatim>\<open>category\<close>, else \<^verbatim>\<open>categoryKey\<close>) with a dot is cut at
  its first dot, the item part keeping any further dots; a value without a dot does not
  parse. Take a list of logs none of whose category values parses into a list slug that
  names a member of \<^verbatim>\<open>Object.prototype\<close>. The analysis of this list returns, and in its
  result: every log with a non-empty category value has added its hours to the total of
  categorized hours, whether the value parses or not, and every log without one has
  added its hours to the uncategorized hours; for every key, the bucket of the key exists
  exactly when some log is grouped by this key and the key parses into two non-empty
  slugs, and then its hours are the sum and its count the number of exactly these logs,
  so a log is counted in the bucket of its own key and in no other.
\<close>

theorem analyzeCategoriesInTimeLogs_buckets:
  "(list_all (\<lambda>l. \<not> inheritedListSlug l) logs \<longrightarrow>
      (\<exists>r. analyzeCategoriesInTimeLogs dir logs = Inr r
         \<and> totalCategorizedHours r = sumHours (filter (\<lambda>l. truthy_str (categoryValueOf l)) logs)
         \<and> uncategorizedHours r = sumHours (filter (\<lambda>l. \<not> truthy_str (categoryValueOf l)) logs)
         \<and> (\<forall>key. (filter (inBucket key) logs = [] \<longrightarrow> categoryStats r key = None)
                \<and> (filter (inBucket key) logs \<noteq> [] \<longrightarrow>
                     (\<exists>b. categoryStats r key = Some b \<and> cs_key b = key
                        \<and> cs_hours b = sumHours (filter (inBucket key) logs)
                        \<and> cs_logCount b = length (filter (inBucket key) logs))))))
   \<and> (\<forall>key. CHR ''.'' \<in> set key \<longrightarrow>
         parseCategoryKey (Some key) =
           (Some (takeWhile (\<lambda>x. x \<noteq> CHR ''.'') key), Some (tl (dropWhile (\<lambda>x. x \<noteq> CHR ''.'') key))))
   \<and> (\<forall>key. CHR ''.'' \<notin> set key \<longrightarrow> parseCategoryKey (Some key) = (None, None))"
proof -
  let ?init = "\<lparr>st_categoryStats = Map.empty, st_categoryListStats = Map.empty,
                 st_totalCategorizedHours = Num 0, st_uncategorizedHours = Num 0\<rparr>"
  have result: "\<exists>r. analyzeCategoriesInTimeLogs dir logs = Inr r
         \<and> totalCategorizedHours r = sumHours (filter (\<lambda>l. truthy_str (categoryValueOf l)) logs)
         \<and> uncategorizedHours r = sumHours (filter (\<lambda>l. \<not> truthy_str (categoryValueOf l)) logs)
         \<and> (\<forall>key. (filter (inBucket key) logs = [] \<longrightarrow> categoryStats r key = None)
                \<and> (filter (inBucket key) logs \<noteq> [] \<longrightarrow>
                     (\<exists>b. categoryStats r key = Some b \<and> cs_key b = key
                        \<and> cs_hours b = sumHours (filter (inBucket key) logs)
                        \<and> cs_logCount b = length (filter (inBucket key) logs))))"
    if free: "list_all (\<lambda>l. \<not> inheritedListSlug l) logs"
  proof -
    from analyzeLogs_returns [OF free, of dir ?init]
    obtain st where run: "analyzeLogs dir ?init logs = Inr st"
      by blast
    let ?r = "\<lparr>categoryStats = st_categoryStats st, categoryListStats = st_categoryListStats st,
               totalCategorizedHours = st_totalCategorizedHours st,
               uncategorizedHours = st_uncategorizedHours st,
               totalHours = js_add (st_totalCategorizedHours st) (st_uncategorizedHours st)\<rparr>"
    from run have r: "analyzeCategoriesInTimeLogs dir logs = Inr ?r"
      by (simp add: analyzeCategoriesInTimeLogs_def)
    note inv = analyze_invariant [OF run]
    have total: "totalCategorizedHours ?r = sumHours (filter (\<lambda>l. truthy_str (categoryValueOf l)) logs)"
      using inv by simp
    have uncat: "uncategorizedHours ?r = sumHours (filter (\<lambda>l. \<not> truthy_str (categoryValueOf l)) logs)"
      using inv by simp
    have bucket: "categoryStats ?r key =
           (if filter (inBucket key) logs = [] then None
            else Some (bucketOf dir key (filter (inBucket key) logs)))" for key
      using inv by simp
    have buckets: "(filter (inBucket key) logs = [] \<longrightarrow> categoryStats ?r key = None)
            \<and> (filter (inBucket key) logs \<noteq> [] \<longrightarrow>
                 (\<exists>b. categoryStats ?r key = Some b \<and> cs_key b = key
                    \<and> cs_hours b = sumHours (filter (inBucket key) logs)
                    \<and> cs_logCount b = length (filter (inBucket key) logs)))" for key
      unfolding bucket by (simp add: bucketOf_def)
    from r total uncat buckets show ?thesis
      by blast
  qed
  have nodot: "parseCategoryKey (Some key) = (None, None)" if "CHR ''.'' \<notin> set key" for key
    using that by simp
  from result parseCategoryKey_first_dot nodot show ?thesis
    by blast
qed

theorem analyzeCategoriesInTimeLogs_buckets_witness:
  "list_all (\<lambda>l. \<not> inheritedListSlug l) [exLog1, exLog2, exLog3, exNewLog]
   \<and> (\<exists>r. analyzeCategoriesInTimeLogs (\<lambda>slug. None) [exLog1, exLog2, exLog3, exNewLog] = Inr r
         \<and> totalCategorizedHours r = Num 7
         \<and> uncategorizedHours r = Num 3
         \<and> (\<exists>b. categoryStats r ''work.coding'' = Some b \<and> cs_hours b = Num 6 \<and> cs_logCount b = 2)
         \<and> categoryStats r ''work'' = None)
   \<and> parseCategoryKey (Some ''work.coding.v2'') = (Some ''work'', Some ''coding.v2'')"
proof -
  let ?logs = "[exLog1, exLog2, exLog3, exNewLog]"
  have v: "categoryValueOf exLog1 = Some ''work.coding''" "categoryValueOf exLog2 = Some ''work.coding''"
    "categoryValueOf exLog3 = Some ''work''" "categoryValueOf exNewLog = None"
    by (simp_all add: categoryValueOf_def or_else_def exLog1_def exLog2_def exLog3_def exNewLog_def)
  have free: "list_all (\<lambda>l. \<not> inheritedListSlug l) ?logs"
    by (simp add: inheritedListSlug_def v objectPrototypeKeys_def)
  have cat: "sumHours (filter (\<lambda>l. truthy_str (categoryValueOf l)) ?logs) = Num 7"
    by (simp add: v) (simp add: sumHours_def exLog1_def exLog2_def exLog3_def)
  have uncat: "sumHours (filter (\<lambda>l. \<not> truthy_str (categoryValueOf l)) ?logs) = Num 3"
    by (simp add: v) (simp add: sumHours_def exNewLog_def)
  have coding: "filter (inBucket ''work.coding'') ?logs = [exLog1, exLog2]"
    by (simp add: inBucket_def v)
  have work: "filter (inBucket ''work'') ?logs = []"
    by (simp add: inBucket_def v)
  have six: "sumHours [exLog1, exLog2] = Num 6" "length [exLog1, exLog2] = 2"
    by (simp_all add: sumHours_def exLog1_def exLog2_def)
  have dot: "CHR ''.'' \<in> set ''work.coding.v2''"
    by simp
  have cut: "(Some (takeWhile (\<lambda>x. x \<noteq> CHR ''.'') ''work.coding.v2''),
              Some (tl (dropWhile (\<lambda>x. x \<noteq> CHR ''.'') ''work.coding.v2'')))
             = (Some ''work'', Some ''coding.v2'')"
    by simp
  have ne: "[exLog1, exLog2] \<noteq> []"
    by simp
  note t = analyzeCategoriesInTimeLogs_buckets [of ?logs "\<lambda>slug. None"]
  from t free obtain r where r: "analyzeCategoriesInTimeLogs (\<lambda>slug. None) ?logs = Inr r"
    and a: "totalCategorizedHours r = sumHours (filter (\<lambda>l. truthy_str (categoryValueOf l)) ?logs)"
    and b: "uncategorizedHours r = sumHours (filter (\<lambda>l. \<not> truthy_str (categoryValueOf l)) ?logs)"
    and k: "\<And>key. (filter (inBucket key) ?logs = [] \<longrightarrow> categoryStats r key = None)
                \<and> (filter (inBucket key) ?logs \<noteq> [] \<longrightarrow>
                     (\<exists>b. categoryStats r key = Some b \<and> cs_key b = key
                        \<and> cs_hours b = sumHours (filter (inBucket key) ?logs)
                        \<and> cs_logCount b = length (filter (inBucket key) ?logs)))"
    by blast
  from k [of "''work.coding''"] ne
  have c: "\<exists>b. categoryStats r ''work.coding'' = Some b \<and> cs_hours b = Num 6 \<and> cs_logCount b = 2"
    unfolding coding six by blast
  from k [of "''work''"] work have d: "categoryStats r ''work'' = None"
    by blast
  from t dot have "parseCategoryKey (Some ''work.coding.v2'') =
             (Some (takeWhile (\<lambda>x. x \<noteq> CHR ''.'') ''work.coding.v2''),
              Some (tl (dropWhile (\<lambda>x. x \<noteq> CHR ''.'') ''work.coding.v2'')))"
    by blast
  then have e: "parseCategoryKey (Some ''work.coding.v2'') = (Some ''work'', Some ''coding.v2'')"
    unfolding cut .
  from a b have a': "totalCategorizedHours r = Num 7" and b': "uncategorizedHours r = Num 3"
    unfolding cat uncat by simp_all
  from r a' b' c d have "\<exists>r. analyzeCategoriesInTimeLogs (\<lambda>slug. None) ?logs = Inr r
         \<and> totalCategorizedHours r = Num 7
         \<and> uncategorizedHours r = Num 3
         \<and> (\<exists>b. categoryStats r ''work.coding'' = Some b \<and> cs_hours b = Num 6 \<and> cs_logCount b = 2)
         \<and> categoryStats r ''work'' = None"
    by blast
  with free e show ?thesis
    by (intro conjI)
qed

section \<open>Well-formed databases stay well formed\<close>

lemma emptyDb_ok: "db_ok emptyDb"
  by (simp add: db_ok_def store_ok_def emptyDb_def emptyStore_def)

lemma store_ok_add:
  assumes "store_ok idOf s" and "\<And>k x. idOf (setId k x) = Some k" and "key \<noteq> None \<Longrightarrow> idOf v = key"
    and "store_add setId key v s = Some (k, s')"
  shows "store_ok idOf s'"
proof -
  from assms(4) have "s' = snd (store_put setId key v s)"
    by (auto simp: store_add_def Let_def split: if_splits)
  with store_ok_put [OF assms(1,2,3)] show ?thesis
    by simp
qed

lemma deleteEach_ok: "store_ok idOf s \<Longrightarrow> deleteEach idOf xs s = Some s' \<Longrightarrow> store_ok idOf s'"
proof (induction xs arbitrary: s)
  case Nil
  then show ?case by simp
next
  case (Cons x xs)
  then obtain k where "idOf x = Some k" "deleteEach idOf xs (store_delete k s) = Some s'"
    by (auto split: option.splits)
  with Cons.IH [of "store_delete k s"] Cons.prems(1) show ?case
    by (simp add: store_ok_delete)
qed

lemma writeTask_db_ok:
  assumes "db_ok d"
  shows "db_ok (snd (writeTask d task isEdit))"
proof -
  obtain k ts where put: "store_put set_task_id (task_id task) task (tasks d) = (k, ts)"
    by (cases "store_put set_task_id (task_id task) task (tasks d)")
  from assms have "store_ok task_id (tasks d)"
    by (simp add: db_ok_def)
  then have "store_ok task_id (snd (store_put set_task_id (task_id task) task (tasks d)))"
    by (rule store_ok_put) (simp_all add: set_task_id_def)
  with put have ts: "store_ok task_id ts"
    by simp
  show ?thesis
  proof (cases "if isEdit then None else initialRemainingHoursEntry task")
    case None
    with put ts assms show ?thesis
      by (simp add: writeTask_def db_ok_def)
  next
    case (Some entry)
    show ?thesis
    proof (cases "store_add set_rh_id (rh_id entry) (entry\<lparr>rh_taskId := Some k\<rparr>) (remainingHoursHistory d)")
      case None
      with Some put assms show ?thesis
        by (simp add: writeTask_def)
    next
      case added: (Some r)
      obtain j h where r: "r = (j, h)" by (cases r)
      from assms have "store_ok rh_id (remainingHoursHistory d)"
        by (simp add: db_ok_def)
      then have "store_ok rh_id h"
      proof (rule store_ok_add)
        show "rh_id (set_rh_id i x) = Some i" for i x
          by (simp add: set_rh_id_def)
        show "rh_id (entry\<lparr>rh_taskId := Some k\<rparr>) = rh_id entry"
          by simp
        show "store_add set_rh_id (rh_id entry) (entry\<lparr>rh_taskId := Some k\<rparr>) (remainingHoursHistory d)
              = Some (j, h)"
          using added r by simp
      qed
      with Some put added r ts assms show ?thesis
        by (simp add: writeTask_def db_ok_def)
    qed
  qed
qed

lemma perform_db_ok:
  assumes "db_ok d"
  shows "db_ok (snd (perform numToString now d op))"
proof (cases op)
  case (SaveTask task isEdit)
  with assms show ?thesis
    by (auto simp: saveTask_def Let_def writeTask_db_ok split: option.splits)
next
  case (DeleteTask taskId)
  show ?thesis
  proof (cases "fst (deleteTask d taskId)")
    case False
    then have "deleteTask d taskId = (False, d)"
      by (auto simp: deleteTask_def Let_def split: option.splits)
    with assms DeleteTask show ?thesis by simp
  next
    case True
    then obtain l h where l: "deleteEach log_id (store_getAllFromIndex log_taskId taskId (timeLogs d)) (timeLogs d) = Some l"
      and h: "deleteEach rh_id (store_getAllFromIndex rh_taskId taskId (remainingHoursHistory d))
                (remainingHoursHistory d) = Some h"
      by (auto simp: deleteTask_def Let_def split: option.splits)
    from assms l have "store_ok log_id l"
      by (auto simp: db_ok_def intro: deleteEach_ok)
    moreover from assms h have "store_ok rh_id h"
      by (auto simp: db_ok_def intro: deleteEach_ok)
    moreover from assms have "store_ok task_id (store_delete taskId (tasks d))"
      by (simp add: db_ok_def store_ok_delete)
    ultimately show ?thesis
      using DeleteTask l h by (simp add: deleteTask_def db_ok_def)
  qed
next
  case (UpdateRemainingHours taskId newValue msg)
  show ?thesis
  proof (cases "store_get (tasks d) taskId")
    case None
    with assms UpdateRemainingHours show ?thesis
      by (simp add: updateRemainingHours_def)
  next
    case (Some task)
    from assms have t: "store_ok task_id (tasks d)" and h: "store_ok rh_id (remainingHoursHistory d)"
      and l: "store_ok log_id (timeLogs d)"
      by (simp_all add: db_ok_def)
    from t have t': "store_ok task_id
        (snd (store_put set_task_id (task_id task) (task\<lparr>remainingHours := Some newValue\<rparr>) (tasks d)))"
      by (rule store_ok_put) (simp_all add: set_task_id_def)
    from h have h': "store_ok rh_id
        \<lparr>rows = rows (remainingHoursHistory d) @ [(nextKey (remainingHoursHistory d), set_rh_id (nextKey (remainingHoursHistory d)) e)],
          nextKey = nextKey (remainingHoursHistory d) + 1\<rparr>" for e
      using store_ok_add [OF h, of set_rh_id None e] store_add_fresh [OF h, of set_rh_id e]
      by (simp add: set_rh_id_def)
    have t'': "store_ok task_id x2"
      if "store_put set_task_id (task_id task) (task\<lparr>remainingHours := Some newValue\<rparr>) (tasks d) = (x1, x2)"
      for x1 x2
      using t' that by simp
    show ?thesis
      using Some UpdateRemainingHours assms t'' h' l
      by (simp add: updateRemainingHours_def Let_def store_add_fresh [OF h] db_ok_def split: prod.splits)
  qed
next
  case (SaveTimeLog timeLog)
  have put: "store_ok log_id (snd (store_put set_log_id (log_id v) v (timeLogs d)))" for v
    using assms by (intro store_ok_put) (simp_all add: db_ok_def set_log_id_def)
  have "store_ok log_id x2"
    if "store_put set_log_id (log_id timeLog) v (timeLogs d) = (x1, x2)" "log_id v = log_id timeLog"
    for v x1 x2
    using put [of v] that by simp
  with assms SaveTimeLog show ?thesis
    by (auto simp: saveTimeLog_def Let_def db_ok_def split: option.splits prod.splits)
next
  case (DeleteTimeLog logId)
  with assms show ?thesis
    by (simp add: deleteTimeLog_def db_ok_def store_ok_delete)
qed

lemma canLogTimeForTask_iff:
  "canLogTimeForTask x \<longleftrightarrow>
     (\<exists>task. x = Some task \<and> (status task = Some ''Estimated'' \<or> status task = Some ''InProgress''))"
proof (cases x)
  case None
  then show ?thesis by simp
next
  case (Some task)
  then show ?thesis
    by (cases "status task") (auto simp: loggableStatuses_def)
qed


end
